theory Spec2Isabelle
  imports Complex_Main
begin

section \<open>JavaScript values, strings and errors\<close>

text \<open>
  A JavaScript string is modelled as a \<^typ>\<open>string\<close>, one \<^typ>\<open>char\<close> per UTF-16 code
  unit; only the code units below 256 are represented. An \<open>Error\<close> object is its name and
  its message (the stack is not modelled).
\<close>

datatype js_error = JsError (err_name: string) (err_message: string)

abbreviation Error :: "string \<Rightarrow> js_error" where
  "Error msg \<equiv> JsError ''Error'' msg"

abbreviation TypeError :: "string \<Rightarrow> js_error" where
  "TypeError msg \<equiv> JsError ''TypeError'' msg"

abbreviation apos :: char where
  "apos \<equiv> CHR 0x27"

text \<open>
  The white space of \<open>String.prototype.trim\<close> and of the regular expression class \<open>\s\<close>
  among the code units below 256: tab, line feed, vertical tab, form feed, carriage
  return, space and no-break space.
\<close>

definition is_whitespace :: "char \<Rightarrow> bool" where
  "is_whitespace c = (c \<in> set [CHR 0x09, CHR 0x0A, CHR 0x0B, CHR 0x0C, CHR 0x0D, CHR 0x20, CHR 0xA0])"

definition trim :: "string \<Rightarrow> string" where
  "trim s = rev (dropWhile is_whitespace (rev (dropWhile is_whitespace s)))"

text \<open>The decimal rendering of a number inside a template string.\<close>

fun string_of_nat :: "nat \<Rightarrow> string" where
  "string_of_nat n =
     (if n < 10 then [''0123456789'' ! n]
      else string_of_nat (n div 10) @ [''0123456789'' ! (n mod 10)])"

declare string_of_nat.simps [simp del]

text \<open>
  The result of \<open>JSON.parse\<close>. A number is carried by its value (only its being zero
  matters below); an object is the list of its members, each key once.
\<close>

datatype json =
    JNull
  | JBool bool
  | JNum rat
  | JStr string
  | JArr "json list"
  | JObj "(string \<times> json) list"

text \<open>
  \<open>messageData[field]\<close>: reading a property of \<open>null\<close> throws a \<open>TypeError\<close>; an object
  gives the member or \<open>undefined\<close> (\<open>None\<close>); the other values have no property of the
  names read here (\<open>to\<close>, \<open>subject\<close>, \<open>message\<close>).
\<close>

fun get_field :: "json \<Rightarrow> string \<Rightarrow> js_error + json option" where
  "get_field JNull f =
     Inl (TypeError (''Cannot read properties of null (reading '' @ [apos] @ f @ [apos] @ '')''))"
| "get_field (JObj kvs) f = Inr (map_of kvs f)"
| "get_field _ f = Inr None"

text \<open>\<open>!v\<close> is the negation of this: \<open>undefined\<close>, \<open>null\<close>, \<open>false\<close>, \<open>0\<close> and \<open>""\<close> are falsy.\<close>

fun truthy :: "json option \<Rightarrow> bool" where
  "truthy None = False"
| "truthy (Some JNull) = False"
| "truthy (Some (JBool b)) = b"
| "truthy (Some (JNum n)) = (n \<noteq> 0)"
| "truthy (Some (JStr s)) = (s \<noteq> [])"
| "truthy (Some (JArr _)) = True"
| "truthy (Some (JObj _)) = True"

text \<open>\<open>typeof v === 'string'\<close>.\<close>

fun is_string :: "json option \<Rightarrow> bool" where
  "is_string (Some (JStr _)) = True"
| "is_string _ = False"

text \<open>The string a value holds; read only where \<open>is_string\<close> has been checked.\<close>

fun str_of :: "json option \<Rightarrow> string" where
  "str_of (Some (JStr s)) = s"
| "str_of _ = []"

section \<open>Regular expressions\<close>

text \<open>
  The regular expressions of the source are sequences of character classes, each taken
  once, or repeated greedily zero or more times (\<open>*\<close>) or one or more times (\<open>+\<close>).
  \<open>match_here r s\<close> lists, in the order the backtracking matcher tries them, the rests
  of \<open>s\<close> after each way of matching \<open>r\<close> at the start of \<open>s\<close>.
\<close>

datatype piece = One "char \<Rightarrow> bool" | Star "char \<Rightarrow> bool" | Plus "char \<Rightarrow> bool"

type_synonym regex = "piece list"

fun match_here :: "regex \<Rightarrow> string \<Rightarrow> string list" where
  "match_here [] s = [s]"
| "match_here (One p # r) s =
     (case s of [] \<Rightarrow> [] | c # cs \<Rightarrow> if p c then match_here r cs else [])"
| "match_here (Star p # r) s =
     concat (map (\<lambda>k. match_here r (drop k s)) (rev [0..<Suc (length (takeWhile p s))]))"
| "match_here (Plus p # r) s =
     concat (map (\<lambda>k. match_here r (drop k s)) (rev [1..<Suc (length (takeWhile p s))]))"

text \<open>
  What a regular expression matches, said without the matcher: \<open>in_lang r u\<close> holds when
  \<open>u\<close> splits into one part for each piece of \<open>r\<close>.
\<close>

fun in_lang :: "regex \<Rightarrow> string \<Rightarrow> bool" where
  "in_lang [] u = (u = [])"
| "in_lang (One p # r) u = (\<exists>c v. u = c # v \<and> p c \<and> in_lang r v)"
| "in_lang (Star p # r) u = (\<exists>v w. u = v @ w \<and> (\<forall>x\<in>set v. p x) \<and> in_lang r w)"
| "in_lang (Plus p # r) u = (\<exists>v w. u = v @ w \<and> v \<noteq> [] \<and> (\<forall>x\<in>set v. p x) \<and> in_lang r w)"

text \<open>\<open>/^r$/.test(s)\<close>: some way of matching \<open>r\<close> consumes all of \<open>s\<close>.\<close>

definition test_anchored :: "regex \<Rightarrow> string \<Rightarrow> bool" where
  "test_anchored r s = ([] \<in> set (match_here r s))"

text \<open>\<open>/r/.test(s)\<close> on a fresh expression: \<open>r\<close> matches at some position of \<open>s\<close>.\<close>

fun test_search :: "regex \<Rightarrow> string \<Rightarrow> bool" where
  "test_search r [] = (match_here r [] \<noteq> [])"
| "test_search r (c # cs) = (match_here r (c # cs) \<noteq> [] \<or> test_search r cs)"

text \<open>
  \<open>s.replace(/r/g, rep)\<close>: scanning from the left, the first way of matching at a
  position is replaced by \<open>rep\<close> and the scan goes on behind the match; a position with
  no match keeps its character. After an empty match the scan moves one character on.
\<close>

function replace_all :: "regex \<Rightarrow> string \<Rightarrow> string \<Rightarrow> string" where
  "replace_all r rep s =
     (case match_here r s of
        [] \<Rightarrow> (case s of [] \<Rightarrow> [] | c # cs \<Rightarrow> c # replace_all r rep cs)
      | t # _ \<Rightarrow>
          if length t < length s then rep @ replace_all r rep t
          else rep @ (case s of [] \<Rightarrow> [] | c # cs \<Rightarrow> c # replace_all r rep cs))"
  by pat_completeness auto
termination
  by (relation "measure (\<lambda>(r, rep, s). length s)") auto

declare replace_all.simps [simp del]

text \<open>The class \<open>[^\s@]\<close> and the expression \<open>/^[^\s@]+@[^\s@]+\.[^\s@]+$/\<close>.\<close>

definition not_space_at :: "char \<Rightarrow> bool" where
  "not_space_at c = (\<not> is_whitespace c \<and> c \<noteq> CHR ''@'')"

definition emailRegex :: regex where
  "emailRegex =
     [Plus not_space_at, One (\<lambda>c. c = CHR ''@''), Plus not_space_at,
      One (\<lambda>c. c = CHR ''.''), Plus not_space_at]"

text \<open>
  The address shape in words: one or more characters that are neither white space nor
  \<open>@\<close>, then \<open>@\<close>, then one or more such characters, then a dot, then one or more such
  characters.
\<close>

definition address_shape :: "string \<Rightarrow> bool" where
  "address_shape s =
     (\<exists>local domain tld.
        s = local @ ''@'' @ domain @ ''.'' @ tld \<and> local \<noteq> [] \<and> domain \<noteq> [] \<and> tld \<noteq> [] \<and>
        (\<forall>c\<in>set (local @ domain @ tld). \<not> is_whitespace c \<and> c \<noteq> CHR ''@''))"

section \<open>The consumer's validation\<close>

text \<open>
  The loop of \<open>_validateMessage\<close> over the required fields: the first check that fails
  throws.
\<close>

fun check_fields :: "json \<Rightarrow> string list \<Rightarrow> js_error + unit" where
  "check_fields messageData [] = Inr ()"
| "check_fields messageData (field # fields) =
     (case get_field messageData field of
        Inl e \<Rightarrow> Inl e
      | Inr v \<Rightarrow>
          if \<not> truthy v then Inl (Error (''Missing required field: '' @ field))
          else if \<not> is_string v then
            Inl (Error (''Field '' @ [apos] @ field @ [apos] @ '' must be a string''))
          else if length (trim (str_of v)) = 0 then
            Inl (Error (''Field '' @ [apos] @ field @ [apos] @ '' cannot be empty''))
          else check_fields messageData fields)"

definition requiredFields :: "string list" where
  "requiredFields = [''to'', ''subject'', ''message'']"

text \<open>
  \<open>_validateMessage\<close>. When the loop has passed, \<open>messageData.to\<close> is a string (lemma
  \<open>check_fields_is_string\<close>), which \<open>str_of\<close> reads.
\<close>

definition validateMessage :: "json \<Rightarrow> js_error + unit" where
  "validateMessage messageData =
     (case check_fields messageData requiredFields of
        Inl e \<Rightarrow> Inl e
      | Inr _ \<Rightarrow>
          (case get_field messageData ''to'' of
             Inl e \<Rightarrow> Inl e
           | Inr v \<Rightarrow>
               if \<not> test_anchored emailRegex (str_of v) then
                 Inl (Error (''Invalid email address format: '' @ str_of v))
               else Inr ()))"

section \<open>Effects\<close>

text \<open>
  What the program does to the outside is recorded as a list of events, in program
  order: a log line (level, message and the metadata that is modelled), a call of the
  transporter's \<open>sendMail\<close> (with the time in milliseconds until its callback ran), a
  wait of \<open>_delay\<close>, a call of the transporter's \<open>close\<close>, a call of the Kafka consumer's
  \<open>disconnect\<close>.
\<close>

datatype log_level = LogDebug | LogInfo | LogWarn | LogError

datatype meta = MStr string | MNat nat | MUndefined

record email_data =
  mail_from :: "string option"
  mail_to :: string
  mail_subject :: string
  mail_html :: string
  mail_text :: string

datatype event =
    Log log_level string "(string \<times> meta) list"
  | SendMail email_data nat
  | Delay nat
  | TransporterClose
  | ConsumerDisconnect

fun duration :: "event \<Rightarrow> nat" where
  "duration (SendMail _ d) = d"
| "duration (Delay ms) = ms"
| "duration _ = 0"

definition elapsed :: "event list \<Rightarrow> nat" where
  "elapsed evs = sum_list (map duration evs)"

fun is_send :: "event \<Rightarrow> bool" where
  "is_send (SendMail _ _) = True"
| "is_send _ = False"

fun is_log :: "event \<Rightarrow> bool" where
  "is_log (Log _ _ _) = True"
| "is_log _ = False"

section \<open>The email service\<close>

text \<open>
  The delivery backend is outside the program. For one call of \<open>sendEmail\<close> it is given
  by the reply to each attempt's \<open>sendMail\<close> (attempts count from 1, one call per attempt):
  the time in milliseconds until the callback runs, and the callback's error or info.
  Every call is answered; a call whose callback never runs is not modelled.
\<close>

datatype mail_info = Info (info_messageId: string)

type_synonym reply = "nat \<times> (js_error + mail_info)"

type_synonym backend = "nat \<Rightarrow> reply"

datatype transporter = Transporter (has_close: bool)

record email_service =
  transporter :: "transporter option"
  isInitialized :: bool
  retryAttempts :: nat
  retryDelay :: nat

record environment =
  MAIL_FROM :: "string option"
  MAIL_USER :: "string option"

datatype send_result = SendResult (res_success: bool) (res_messageId: string) (res_attempt: nat)

text \<open>The constructor of \<open>EmailService\<close>.\<close>

definition new_EmailService :: email_service where
  "new_EmailService =
     \<lparr>transporter = None, isInitialized = False, retryAttempts = 3, retryDelay = 1000\<rparr>"

text \<open>
  \<open>initialize\<close>. \<open>getMailTransporter\<close> returns a transporter or throws, and
  \<open>verifyMailTransporter\<close> answers whether the connection is verified: both are inputs.
\<close>

definition initialize ::
  "(js_error + transporter) \<Rightarrow> bool \<Rightarrow> email_service \<Rightarrow> (js_error + unit) \<times> email_service \<times> event list"
where
  "initialize getMailTransporter isVerified svc =
     (case getMailTransporter of
        Inl e \<Rightarrow>
          (Inl e, svc,
           [Log LogInfo ''Initializing email service...'' [],
            Log LogError ''Failed to initialize email service'' [(''error'', MStr (err_message e))]])
      | Inr t \<Rightarrow>
          if \<not> isVerified then
            (Inl (Error ''Failed to verify mail transporter connection''),
             svc\<lparr>transporter := Some t\<rparr>,
             [Log LogInfo ''Initializing email service...'' [],
              Log LogError ''Failed to initialize email service''
                [(''error'', MStr ''Failed to verify mail transporter connection'')]])
          else
            (Inr (), svc\<lparr>transporter := Some t, isInitialized := True\<rparr>,
             [Log LogInfo ''Initializing email service...'' [],
              Log LogInfo ''Email service initialized successfully'' []]))"

definition isValidEmail :: "string \<Rightarrow> bool" where
  "isValidEmail email = test_anchored emailRegex email"

definition validateEmailParams :: "json option \<Rightarrow> json option \<Rightarrow> json option \<Rightarrow> js_error + unit" where
  "validateEmailParams to subject message =
     (if \<not> truthy to \<or> \<not> is_string to \<or> \<not> isValidEmail (str_of to) then
        Inl (Error ''Invalid recipient email address'')
      else if \<not> truthy subject \<or> \<not> is_string subject \<or> length (trim (str_of subject)) = 0 then
        Inl (Error ''Email subject is required and cannot be empty'')
      else if \<not> truthy message \<or> \<not> is_string message \<or> length (trim (str_of message)) = 0 then
        Inl (Error ''Email message is required and cannot be empty'')
      else Inr ())"

text \<open>The expression \<open>/<[^>]*>/\<close>, and \<open>_isHtmlContent\<close>, \<open>_convertToHtml\<close> and \<open>_stripHtml\<close>.\<close>

definition htmlTag :: regex where
  "htmlTag = [One (\<lambda>c. c = CHR ''<''), Star (\<lambda>c. c \<noteq> CHR ''>''), One (\<lambda>c. c = CHR ''>'')]"

definition isHtmlContent :: "string \<Rightarrow> bool" where
  "isHtmlContent content = test_search htmlTag content"

definition convertToHtml :: "string \<Rightarrow> string" where
  "convertToHtml text =
     replace_all [One (\<lambda>c. c = CHR '' ''), One (\<lambda>c. c = CHR '' '')] ''&nbsp;&nbsp;''
       (replace_all [One (\<lambda>c. c = CHR 0x0A)] ''<br>'' text)"

definition stripHtml :: "string \<Rightarrow> string" where
  "stripHtml html = replace_all htmlTag [] html"

text \<open>\<open>a || b\<close> on two environment variables: the first when it is set and not empty.\<close>

definition env_or :: "string option \<Rightarrow> string option \<Rightarrow> string option" where
  "env_or a b = (case a of None \<Rightarrow> b | Some s \<Rightarrow> if s \<noteq> [] then Some s else b)"

definition emailData :: "environment \<Rightarrow> string \<Rightarrow> string \<Rightarrow> string \<Rightarrow> email_data" where
  "emailData env to subject message =
     \<lparr>mail_from = env_or (MAIL_FROM env) (MAIL_USER env),
      mail_to = to,
      mail_subject = subject,
      mail_html = (if isHtmlContent message then message else convertToHtml message),
      mail_text = (if isHtmlContent message then stripHtml message else message)\<rparr>"

text \<open>
  The retry loop of \<open>sendEmail\<close>, from \<open>attempt\<close> on. When the loop ends without a
  \<open>return\<close> or a \<open>throw\<close> the function returns \<open>undefined\<close> (\<open>None\<close>).
\<close>

function send_attempts ::
  "email_service \<Rightarrow> backend \<Rightarrow> email_data \<Rightarrow> nat \<Rightarrow> (js_error + send_result option) \<times> event list"
where
  "send_attempts svc sendMail data attempt =
     (if attempt \<le> retryAttempts svc then
        (case sendMail attempt of
           (d, Inr info) \<Rightarrow>
             (Inr (Some (SendResult True (info_messageId info) attempt)),
              [SendMail data d,
               Log LogInfo ''Email sent successfully''
                 [(''to'', MStr (mail_to data)), (''subject'', MStr (mail_subject data)),
                  (''messageId'', MStr (info_messageId info)), (''attempt'', MNat attempt)]])
         | (d, Inl error) \<Rightarrow>
             if attempt = retryAttempts svc then
               (Inl error,
                [SendMail data d,
                 Log LogWarn (''Email send attempt '' @ string_of_nat attempt @ '' failed'')
                   [(''to'', MStr (mail_to data)), (''subject'', MStr (mail_subject data)),
                    (''error'', MStr (err_message error)), (''attempt'', MNat attempt)],
                 Log LogError ''All email send attempts failed''
                   [(''to'', MStr (mail_to data)), (''subject'', MStr (mail_subject data)),
                    (''error'', MStr (err_message error)),
                    (''totalAttempts'', MNat (retryAttempts svc))]])
             else
               (case send_attempts svc sendMail data (attempt + 1) of
                  (r, evs) \<Rightarrow>
                    (r,
                     [SendMail data d,
                      Log LogWarn (''Email send attempt '' @ string_of_nat attempt @ '' failed'')
                        [(''to'', MStr (mail_to data)), (''subject'', MStr (mail_subject data)),
                         (''error'', MStr (err_message error)), (''attempt'', MNat attempt)],
                      Delay (retryDelay svc * attempt)] @ evs)))
      else (Inr None, []))"
  by pat_completeness auto
termination
  by (relation "measure (\<lambda>(svc, sendMail, data, attempt). Suc (retryAttempts svc) - attempt)") auto

declare send_attempts.simps [simp del]

definition sendEmail ::
  "email_service \<Rightarrow> environment \<Rightarrow> backend \<Rightarrow> json option \<Rightarrow> json option \<Rightarrow> json option \<Rightarrow>
   (js_error + send_result option) \<times> event list"
where
  "sendEmail svc env sendMail to subject message =
     (if \<not> isInitialized svc then
        (Inl (Error ''Email service not initialized. Call initialize() first.''), [])
      else
        (case validateEmailParams to subject message of
           Inl e \<Rightarrow> (Inl e, [])
         | Inr _ \<Rightarrow>
             (case send_attempts svc sendMail
                     (emailData env (str_of to) (str_of subject) (str_of message)) 1 of
                (r, evs) \<Rightarrow>
                  (r,
                   Log LogInfo ''Attempting to send email''
                     [(''to'', MStr (str_of to)), (''subject'', MStr (str_of subject)),
                      (''messageLength'', MNat (length (str_of message)))] # evs))))"

text \<open>\<open>close\<close>: an error of the transporter's \<open>close\<close> is logged, not thrown.\<close>

definition close :: "js_error option \<Rightarrow> email_service \<Rightarrow> event list" where
  "close close_error svc =
     (case transporter svc of
        None \<Rightarrow> []
      | Some t \<Rightarrow>
          if has_close t then
            (case close_error of
               None \<Rightarrow> [TransporterClose, Log LogInfo ''Email service transporter closed'' []]
             | Some e \<Rightarrow>
                 [TransporterClose,
                  Log LogError ''Error closing email service transporter''
                    [(''error'', MStr (err_message e))]])
          else [])"

section \<open>The notification consumer\<close>

record notification_consumer =
  isRunning :: bool
  messageProcessingTimeout :: nat

text \<open>The constructor of \<open>NotificationConsumer\<close> (the Kafka consumer it holds is not modelled).\<close>

definition new_NotificationConsumer :: notification_consumer where
  "new_NotificationConsumer = \<lparr>isRunning = False, messageProcessingTimeout = 30000\<rparr>"

record kafka_message =
  msg_value :: "string option"
  msg_offset :: string
  msg_timestamp :: string
  msg_key :: "string option"

definition generateMessageId :: "string \<Rightarrow> nat \<Rightarrow> string \<Rightarrow> string" where
  "generateMessageId topic partition_no offset = topic @ ''-'' @ string_of_nat partition_no @ ''-'' @ offset"

definition meta_of :: "string option \<Rightarrow> meta" where
  "meta_of v = (case v of None \<Rightarrow> MUndefined | Some s \<Rightarrow> MStr s)"

text \<open>
  \<open>_parseMessage\<close>. \<open>JSON.parse\<close> is an input: it gives the decoded value or throws. An
  absent or empty payload throws inside the \<open>try\<close>, and every error is thrown again as an
  \<open>Invalid JSON payload\<close> error.
\<close>

definition parseMessage ::
  "(string \<Rightarrow> js_error + json) \<Rightarrow> kafka_message \<Rightarrow> (js_error + json) \<times> event list"
where
  "parseMessage json_parse message =
     (case (case msg_value message of
              None \<Rightarrow> Inl (Error ''Message payload is empty or null'')
            | Some payload \<Rightarrow>
                if payload = [] then Inl (Error ''Message payload is empty or null'')
                else json_parse payload) of
        Inr messageData \<Rightarrow>
          (Inr messageData,
           [Log LogDebug ''Message parsed successfully'' [(''payload'', meta_of (msg_value message))]])
      | Inl error \<Rightarrow>
          (Inl (Error (''Invalid JSON payload: '' @ err_message error)),
           [Log LogError ''Failed to parse message payload''
              [(''error'', MStr (err_message error)), (''payload'', meta_of (msg_value message))]]))"

text \<open>
  \<open>_sendEmailWithTimeout\<close>. One timer is set for the whole call of \<open>sendEmail\<close>, which
  runs all the attempts and the waits between them. The promise is rejected by the timer
  when \<open>sendEmail\<close> has not settled within \<open>messageProcessingTimeout\<close> milliseconds, and
  settled with the outcome of \<open>sendEmail\<close> otherwise; the timer does not stop
  \<open>sendEmail\<close>, so the events are those of \<open>sendEmail\<close> in both cases (after a timeout,
  the later ones happen behind the caller's back). A call that settles in the very
  millisecond of the timer is counted as timed out.
\<close>

definition sendEmailWithTimeout ::
  "notification_consumer \<Rightarrow> email_service \<Rightarrow> environment \<Rightarrow> backend \<Rightarrow> json \<Rightarrow>
   (js_error + send_result option) \<times> event list"
where
  "sendEmailWithTimeout c svc env sendMail messageData =
     (case get_field messageData ''to'' of
        Inl e \<Rightarrow> (Inl e, [])
      | Inr to \<Rightarrow>
     (case get_field messageData ''subject'' of
        Inl e \<Rightarrow> (Inl e, [])
      | Inr subject \<Rightarrow>
     (case get_field messageData ''message'' of
        Inl e \<Rightarrow> (Inl e, [])
      | Inr message \<Rightarrow>
     (case sendEmail svc env sendMail to subject message of
        (r, evs) \<Rightarrow>
          if messageProcessingTimeout c \<le> elapsed evs then
            (Inl (Error (''Email sending timeout after '' @
                         string_of_nat (messageProcessingTimeout c) @ ''ms'')), evs)
          else (r, evs)))))"




text \<open>
  Events with their times. \<open>stamp t evs\<close> gives each event of a list of events that
  happen one after another, the first at time \<open>t\<close>, the time at which it starts; \<open>shift\<close>
  moves times that count from the call of a function to the time of that call.
\<close>

fun stamp :: "nat \<Rightarrow> event list \<Rightarrow> (nat \<times> event) list" where
  "stamp t [] = []"
| "stamp t (e # es) = (t, e) # stamp (t + duration e) es"

definition shift :: "nat \<Rightarrow> (nat \<times> event) list \<Rightarrow> (nat \<times> event) list" where
  "shift t tevs = map (\<lambda>(u, ev). (t + u, ev)) tevs"

text \<open>
  The body of the \<open>try\<close> of \<open>_processMessage\<close> after its first log line: the first
  step that throws ends it. The debug line is the one \<open>_validateMessage\<close> writes when it
  has passed. Times count in milliseconds from the call; decoding, validating and
  logging take no time. The steps give: whether the \<open>try\<close> completes or throws; the time
  at which it does; the events until then; and the events after, which are those of a
  \<open>sendEmail\<close> that the timer has left behind: the events of \<open>sendEmail\<close> that start
  before the timer runs happen before the \<open>try\<close> ends, the others after (an event in the
  very millisecond of the timer counts as after).
\<close>

definition read_prop :: "json \<Rightarrow> string \<Rightarrow> json option" where
  "read_prop v f = (case get_field v f of Inl _ \<Rightarrow> None | Inr x \<Rightarrow> x)"

definition validation_passed :: "json \<Rightarrow> event" where
  "validation_passed messageData =
     Log LogDebug ''Message validation passed''
       [(''to'', MStr (str_of (read_prop messageData ''to''))),
        (''subject'', MStr (str_of (read_prop messageData ''subject''))),
        (''messageLength'', MNat (length (str_of (read_prop messageData ''message''))))]"

record steps =
  st_result :: "js_error + unit"
  st_ended :: nat
  st_before :: "(nat \<times> event) list"
  st_late :: "(nat \<times> event) list"

definition process_steps ::
  "(string \<Rightarrow> js_error + json) \<Rightarrow> notification_consumer \<Rightarrow> email_service \<Rightarrow> environment \<Rightarrow>
   backend \<Rightarrow> string \<Rightarrow> kafka_message \<Rightarrow> steps"
where
  "process_steps json_parse c svc env sendMail messageId message =
     (case parseMessage json_parse message of
        (Inl e, evs1) \<Rightarrow>
          \<lparr>st_result = Inl e, st_ended = 0, st_before = stamp 0 evs1, st_late = []\<rparr>
      | (Inr messageData, evs1) \<Rightarrow>
          (case validateMessage messageData of
             Inl e \<Rightarrow>
               \<lparr>st_result = Inl e, st_ended = 0, st_before = stamp 0 evs1, st_late = []\<rparr>
           | Inr _ \<Rightarrow>
               (case sendEmailWithTimeout c svc env sendMail messageData of
                  (r, evs2) \<Rightarrow>
                    (let ended =
                           (if messageProcessingTimeout c \<le> elapsed evs2
                            then messageProcessingTimeout c else elapsed evs2);
                         before =
                           stamp 0 (evs1 @ [validation_passed messageData]) @
                           takeWhile (\<lambda>(u, ev). u < messageProcessingTimeout c) (stamp 0 evs2);
                         late = dropWhile (\<lambda>(u, ev). u < messageProcessingTimeout c) (stamp 0 evs2)
                     in case r of
                          Inl e \<Rightarrow>
                            \<lparr>st_result = Inl e, st_ended = ended, st_before = before,
                              st_late = late\<rparr>
                        | Inr None \<Rightarrow>
                            \<lparr>st_result =
                                Inl (TypeError (''Cannot read properties of undefined (reading '' @
                                                [apos] @ ''messageId'' @ [apos] @ '')'')),
                              st_ended = ended, st_before = before, st_late = late\<rparr>
                        | Inr (Some result) \<Rightarrow>
                            \<lparr>st_result = Inr (), st_ended = ended,
                              st_before =
                                before @
                                [(ended,
                                  Log LogInfo ''Message processed successfully''
                                    [(''messageId'', MStr messageId),
                                     (''to'', MStr (str_of (read_prop messageData ''to''))),
                                     (''subject'', MStr (str_of (read_prop messageData ''subject''))),
                                     (''emailMessageId'', MStr (res_messageId result))])],
                              st_late = late\<rparr>))))"

text \<open>
  \<open>_processMessage\<close>, called at time \<open>t\<close>: the \<open>catch\<close> writes two log lines (the second
  one in \<open>_handleProcessingError\<close>) at the time the \<open>try\<close> has thrown, and the function
  returns. The result says whether an error leaves the function; with it come the time
  of the return and the events with their times. The events that a \<open>sendEmail\<close> left
  behind by the timer produces later come after the return.
\<close>

definition processing :: "string \<Rightarrow> string \<Rightarrow> nat \<Rightarrow> kafka_message \<Rightarrow> event" where
  "processing messageId topic partition_no message =
     Log LogInfo ''Processing Kafka message''
       [(''messageId'', MStr messageId), (''topic'', MStr topic), (''partition'', MNat partition_no),
        (''offset'', MStr (msg_offset message)), (''timestamp'', MStr (msg_timestamp message)),
        (''key'', meta_of (msg_key message))]"

definition failed_logs :: "string \<Rightarrow> string \<Rightarrow> nat \<Rightarrow> kafka_message \<Rightarrow> js_error \<Rightarrow> event list" where
  "failed_logs messageId topic partition_no message error =
     [Log LogError ''Failed to process message''
        [(''messageId'', MStr messageId), (''topic'', MStr topic),
         (''partition'', MNat partition_no), (''offset'', MStr (msg_offset message)),
         (''error'', MStr (err_message error))],
      Log LogError ''Message processing error details''
        [(''messageId'', MStr messageId), (''name'', MStr (err_name error)),
         (''message'', MStr (err_message error))]]"

definition processMessage_at ::
  "(string \<Rightarrow> js_error + json) \<Rightarrow> notification_consumer \<Rightarrow> email_service \<Rightarrow> environment \<Rightarrow>
   backend \<Rightarrow> string \<Rightarrow> nat \<Rightarrow> kafka_message \<Rightarrow> nat \<Rightarrow>
   (js_error + unit) \<times> nat \<times> (nat \<times> event) list"
where
  "processMessage_at json_parse c svc env sendMail topic partition_no message t =
     (let messageId = generateMessageId topic partition_no (msg_offset message);
          s = process_steps json_parse c svc env sendMail messageId message
      in
      case st_result s of
        Inr _ \<Rightarrow>
          (Inr (), t + st_ended s,
           shift t ((0, processing messageId topic partition_no message) # st_before s @ st_late s))
      | Inl error \<Rightarrow>
          (Inr (), t + st_ended s,
           shift t
             ((0, processing messageId topic partition_no message) # st_before s @
              map (\<lambda>ev. (st_ended s, ev)) (failed_logs messageId topic partition_no message error) @
              st_late s)))"

text \<open>\<open>_processMessage\<close> without the times: its result and its events in the order they happen.\<close>

definition processMessage ::
  "(string \<Rightarrow> js_error + json) \<Rightarrow> notification_consumer \<Rightarrow> email_service \<Rightarrow> environment \<Rightarrow>
   backend \<Rightarrow> string \<Rightarrow> nat \<Rightarrow> kafka_message \<Rightarrow> (js_error + unit) \<times> event list"
where
  "processMessage json_parse c svc env sendMail topic partition_no message =
     (case processMessage_at json_parse c svc env sendMail topic partition_no message 0 of
        (res, returned, tevs) \<Rightarrow> (res, map snd tevs))"



text \<open>
  \<open>NotificationConsumer.stop\<close>. Nothing in its \<open>try\<close> throws (\<open>close\<close> catches the
  transporter's error), so it returns.
\<close>

definition stop ::
  "js_error option \<Rightarrow> notification_consumer \<Rightarrow> email_service \<Rightarrow>
   (js_error + unit) \<times> notification_consumer \<times> event list"
where
  "stop close_error c svc =
     (Inr (), c\<lparr>isRunning := False\<rparr>,
      [Log LogInfo ''Stopping notification consumer...'' []] @ close close_error svc @
      [Log LogInfo ''Notification consumer stopped successfully'' []])"

section \<open>The service\<close>

text \<open>
  \<open>NotificationService\<close>: whether the Kafka consumer has been created, the notification
  consumer once created, and the shutdown flag. The email service is a module-level
  singleton, so it stands beside the service in the state.
\<close>

record notification_service =
  consumer :: bool
  notificationConsumer :: "notification_consumer option"
  isShuttingDown :: bool

definition new_NotificationService :: notification_service where
  "new_NotificationService = \<lparr>consumer = False, notificationConsumer = None, isShuttingDown = False\<rparr>"

text \<open>\<open>disconnectConsumer\<close>: an error of the consumer's \<open>disconnect\<close> is logged and thrown again.\<close>

definition disconnectConsumer :: "js_error option \<Rightarrow> (js_error + unit) \<times> event list" where
  "disconnectConsumer disconnect_error =
     (case disconnect_error of
        None \<Rightarrow>
          (Inr (),
           [Log LogInfo ''Disconnecting consumer from Kafka cluster...'' [], ConsumerDisconnect,
            Log LogInfo ''Consumer disconnected successfully'' []])
      | Some e \<Rightarrow>
          (Inl e,
           [Log LogInfo ''Disconnecting consumer from Kafka cluster...'' [], ConsumerDisconnect,
            Log LogError ''Error disconnecting consumer'' [(''error'', MStr (err_message e))]]))"

text \<open>
  \<open>shutdown\<close>. The errors the transporter's \<open>close\<close> and the consumer's \<open>disconnect\<close>
  throw, if any, are inputs. An error inside the \<open>try\<close> is logged, and \<open>shutdown\<close> returns.
\<close>

definition shutdown ::
  "js_error option \<Rightarrow> js_error option \<Rightarrow> notification_service \<times> email_service \<Rightarrow>
   (notification_service \<times> email_service) \<times> event list"
where
  "shutdown close_error disconnect_error w =
     (case w of (app, svc) \<Rightarrow>
      if isShuttingDown app then
        (w, [Log LogWarn ''Shutdown already in progress, ignoring duplicate shutdown request'' []])
      else
        (case (case notificationConsumer app of
                 None \<Rightarrow> (Inr (), None, [])
               | Some c \<Rightarrow> (case stop close_error c svc of (r, c', evs) \<Rightarrow> (r, Some c', evs))) of
           (Inl e, nc, evs1) \<Rightarrow>
             ((app\<lparr>isShuttingDown := True, notificationConsumer := nc\<rparr>, svc),
              Log LogInfo ''Shutting down Email Notification Microservice...'' [] # evs1 @
              [Log LogError ''Error during shutdown'' [(''error'', MStr (err_message e))]])
         | (Inr _, nc, evs1) \<Rightarrow>
             (case (if consumer app then disconnectConsumer disconnect_error else (Inr (), [])) of
                (Inl e, evs2) \<Rightarrow>
                  ((app\<lparr>isShuttingDown := True, notificationConsumer := nc\<rparr>, svc),
                   Log LogInfo ''Shutting down Email Notification Microservice...'' [] # evs1 @ evs2 @
                   [Log LogError ''Error during shutdown'' [(''error'', MStr (err_message e))]])
              | (Inr _, evs2) \<Rightarrow>
                  ((app\<lparr>isShuttingDown := True, notificationConsumer := nc\<rparr>, svc),
                   Log LogInfo ''Shutting down Email Notification Microservice...'' [] # evs1 @ evs2 @
                   [Log LogInfo ''Email Notification Microservice shutdown completed successfully'' []]))))"

section \<open>Properties of the regular expressions\<close>

lemma take_le_takeWhile: "k \<le> length (takeWhile p s) \<Longrightarrow> \<forall>x\<in>set (take k s). p x"
proof -
  assume k: "k \<le> length (takeWhile p s)"
  have "take k s = take k (takeWhile p s)"
  proof -
    have "take k (takeWhile p s @ dropWhile p s) = take k (takeWhile p s)"
      unfolding take_append using k by simp
    then show ?thesis by simp
  qed
  then have "set (take k s) \<subseteq> set (takeWhile p s)"
    by (metis set_take_subset)
  then show ?thesis
    by (auto dest: set_takeWhileD)
qed

lemma length_le_takeWhile: "\<forall>x\<in>set v. p x \<Longrightarrow> length v \<le> length (takeWhile p (v @ w))"
  by (simp add: takeWhile_append2)

lemma match_here_upto:
  "t \<in> set (concat (map (\<lambda>k. match_here r (drop k s)) (rev [m..<Suc (length (takeWhile p s))]))) \<longleftrightarrow>
   (\<exists>k. m \<le> k \<and> k \<le> length (takeWhile p s) \<and> t \<in> set (match_here r (drop k s)))"
  by auto

lemma match_here_iff:
  "t \<in> set (match_here r s) \<longleftrightarrow> (\<exists>u. s = u @ t \<and> in_lang r u)"
proof (induction r arbitrary: s t)
  case Nil
  then show ?case by auto
next
  case (Cons a r)
  show ?case
  proof (cases a)
    case (One p)
    then show ?thesis using Cons.IH by (cases s) auto
  next
    case (Star p)
    have "t \<in> set (match_here (a # r) s) \<longleftrightarrow>
      (\<exists>k. 0 \<le> k \<and> k \<le> length (takeWhile p s) \<and> t \<in> set (match_here r (drop k s)))"
      unfolding Star match_here.simps match_here_upto ..
    also have "\<dots> \<longleftrightarrow> (\<exists>k u. k \<le> length (takeWhile p s) \<and> drop k s = u @ t \<and> in_lang r u)"
      using Cons.IH by auto
    also have "\<dots> \<longleftrightarrow> (\<exists>u. s = u @ t \<and> in_lang (a # r) u)"
    proof
      assume "\<exists>k u. k \<le> length (takeWhile p s) \<and> drop k s = u @ t \<and> in_lang r u"
      then obtain k u where k: "k \<le> length (takeWhile p s)" and d: "drop k s = u @ t" and u: "in_lang r u"
        by blast
      have "s = (take k s @ u) @ t" using d by (metis append_take_drop_id append.assoc)
      moreover have "in_lang (a # r) (take k s @ u)"
        unfolding Star using take_le_takeWhile[OF k] u by auto
      ultimately show "\<exists>u. s = u @ t \<and> in_lang (a # r) u" by blast
    next
      assume "\<exists>u. s = u @ t \<and> in_lang (a # r) u"
      then obtain v w where s: "s = (v @ w) @ t" and v: "\<forall>x\<in>set v. p x" and w: "in_lang r w"
        unfolding Star by auto
      have "length v \<le> length (takeWhile p s)"
        using length_le_takeWhile[OF v, of "w @ t"] s by simp
      moreover have "drop (length v) s = w @ t" using s by simp
      ultimately show "\<exists>k u. k \<le> length (takeWhile p s) \<and> drop k s = u @ t \<and> in_lang r u"
        using w by blast
    qed
    finally show ?thesis .
  next
    case (Plus p)
    have "t \<in> set (match_here (a # r) s) \<longleftrightarrow>
      (\<exists>k. 1 \<le> k \<and> k \<le> length (takeWhile p s) \<and> t \<in> set (match_here r (drop k s)))"
      unfolding Plus match_here.simps match_here_upto ..
    also have "\<dots> \<longleftrightarrow> (\<exists>k u. 1 \<le> k \<and> k \<le> length (takeWhile p s) \<and> drop k s = u @ t \<and> in_lang r u)"
      using Cons.IH by auto
    also have "\<dots> \<longleftrightarrow> (\<exists>u. s = u @ t \<and> in_lang (a # r) u)"
    proof
      assume "\<exists>k u. 1 \<le> k \<and> k \<le> length (takeWhile p s) \<and> drop k s = u @ t \<and> in_lang r u"
      then obtain k u where k1: "1 \<le> k" and k: "k \<le> length (takeWhile p s)"
        and d: "drop k s = u @ t" and u: "in_lang r u"
        by blast
      have "s = (take k s @ u) @ t" using d by (metis append_take_drop_id append.assoc)
      moreover have "k \<le> length s" using k length_takeWhile_le[of p s] by (rule order_trans)
      then have "take k s \<noteq> []" using k1 by auto
      then have "in_lang (a # r) (take k s @ u)"
        unfolding Plus in_lang.simps using take_le_takeWhile[OF k] u
        by (intro exI[of _ "take k s"] exI[of _ u]) simp
      ultimately show "\<exists>u. s = u @ t \<and> in_lang (a # r) u" by blast
    next
      assume "\<exists>u. s = u @ t \<and> in_lang (a # r) u"
      then obtain v w where s: "s = (v @ w) @ t" and v: "\<forall>x\<in>set v. p x" and w: "in_lang r w"
        and ne: "v \<noteq> []"
        unfolding Plus by auto
      have "length v \<le> length (takeWhile p s)"
        using length_le_takeWhile[OF v, of "w @ t"] s by simp
      moreover have "drop (length v) s = w @ t" using s by simp
      moreover have "1 \<le> length v" using ne by (cases v) auto
      ultimately show "\<exists>k u. 1 \<le> k \<and> k \<le> length (takeWhile p s) \<and> drop k s = u @ t \<and> in_lang r u"
        using w by blast
    qed
    finally show ?thesis .
  qed
qed

lemma emailRegex_shape: "test_anchored emailRegex s \<longleftrightarrow> address_shape s"
proof
  assume "test_anchored emailRegex s"
  then obtain u where "s = u @ []" and "in_lang emailRegex u"
    unfolding test_anchored_def match_here_iff by blast
  then have "in_lang emailRegex s" by simp
  then obtain a w1 where 1: "s = a @ w1" "a \<noteq> []" "\<forall>x\<in>set a. not_space_at x"
    and "in_lang [One (\<lambda>c. c = CHR ''@''), Plus not_space_at, One (\<lambda>c. c = CHR ''.''), Plus not_space_at] w1"
    unfolding emailRegex_def in_lang.simps(4) by blast
  then obtain w2 where 2: "w1 = CHR ''@'' # w2"
    and "in_lang [Plus not_space_at, One (\<lambda>c. c = CHR ''.''), Plus not_space_at] w2"
    unfolding in_lang.simps(2) by blast
  then obtain b w3 where 3: "w2 = b @ w3" "b \<noteq> []" "\<forall>x\<in>set b. not_space_at x"
    and "in_lang [One (\<lambda>c. c = CHR ''.''), Plus not_space_at] w3"
    unfolding in_lang.simps(4) by blast
  then obtain w4 where 4: "w3 = CHR ''.'' # w4" and "in_lang [Plus not_space_at] w4"
    unfolding in_lang.simps(2) by blast
  then obtain c w5 where 5: "w4 = c @ w5" "c \<noteq> []" "\<forall>x\<in>set c. not_space_at x"
    and "in_lang [] w5"
    unfolding in_lang.simps(4) by blast
  then have 6: "w5 = []" by simp
  have sh: "s = a @ ''@'' @ b @ ''.'' @ c"
    using 1(1) 2 3(1) 4 5(1) 6 by simp
  have cl: "\<forall>x\<in>set (a @ b @ c). \<not> is_whitespace x \<and> x \<noteq> CHR ''@''"
    using 1(3) 3(3) 5(3) by (auto simp: not_space_at_def)
  show "address_shape s"
    unfolding address_shape_def
    by (rule exI[of _ a], rule exI[of _ b], rule exI[of _ c]) (intro conjI sh cl 1(2) 3(2) 5(2))
next
  assume "address_shape s"
  then obtain a b c where s: "s = a @ ''@'' @ b @ ''.'' @ c"
    and ne: "a \<noteq> []" "b \<noteq> []" "c \<noteq> []"
    and cls: "\<forall>x\<in>set (a @ b @ c). \<not> is_whitespace x \<and> x \<noteq> CHR ''@''"
    unfolding address_shape_def by (elim exE conjE)
  have "in_lang [Plus not_space_at] c"
    using ne cls by (simp add: not_space_at_def)
  then have "in_lang [One (\<lambda>c. c = CHR ''.''), Plus not_space_at] (CHR ''.'' # c)"
    by simp
  then have "in_lang [Plus not_space_at, One (\<lambda>c. c = CHR ''.''), Plus not_space_at] (b @ CHR ''.'' # c)"
    unfolding in_lang.simps(4)[of _ "[One (\<lambda>c. c = CHR ''.''), Plus not_space_at]"]
    using ne cls by (intro exI[of _ b] exI[of _ "CHR ''.'' # c"]) (simp add: not_space_at_def)
  then have "in_lang [One (\<lambda>c. c = CHR ''@''), Plus not_space_at, One (\<lambda>c. c = CHR ''.''), Plus not_space_at]
      (CHR ''@'' # b @ CHR ''.'' # c)"
    by simp
  then have "in_lang emailRegex (a @ CHR ''@'' # b @ CHR ''.'' # c)"
    unfolding emailRegex_def
      in_lang.simps(4)[of _ "[One (\<lambda>c. c = CHR ''@''), Plus not_space_at, One (\<lambda>c. c = CHR ''.''), Plus not_space_at]"]
    using ne cls by (intro exI[of _ a] exI[of _ "CHR ''@'' # b @ CHR ''.'' # c"]) (simp add: not_space_at_def)
  then have "in_lang emailRegex s" using s by simp
  then have "\<exists>u. s = u @ [] \<and> in_lang emailRegex u" by simp
  then show "test_anchored emailRegex s"
    unfolding test_anchored_def match_here_iff .
qed

lemma match_here_nonempty_iff: "match_here r s \<noteq> [] \<longleftrightarrow> (\<exists>u t. s = u @ t \<and> in_lang r u)"
proof -
  have "match_here r s \<noteq> [] \<longleftrightarrow> (\<exists>t. t \<in> set (match_here r s))"
    by (cases "match_here r s") auto
  then show ?thesis
    unfolding match_here_iff by blast
qed

lemma test_search_iff: "test_search r s \<longleftrightarrow> (\<exists>a u t. s = a @ u @ t \<and> in_lang r u)"
proof (induction s)
  case Nil
  then show ?case by (simp add: match_here_nonempty_iff)
next
  case (Cons c cs)
  have "(\<exists>a u t. c # cs = a @ u @ t \<and> in_lang r u) \<longleftrightarrow>
        (\<exists>u t. c # cs = u @ t \<and> in_lang r u) \<or> (\<exists>a u t. cs = a @ u @ t \<and> in_lang r u)"
  proof
    assume "\<exists>a u t. c # cs = a @ u @ t \<and> in_lang r u"
    then obtain a u t where eq: "c # cs = a @ u @ t" and u: "in_lang r u" by blast
    show "(\<exists>u t. c # cs = u @ t \<and> in_lang r u) \<or> (\<exists>a u t. cs = a @ u @ t \<and> in_lang r u)"
    proof (cases a)
      case Nil
      then show ?thesis using eq u by auto
    next
      case (Cons x a')
      then have "cs = a' @ u @ t" using eq by simp
      then show ?thesis using u by blast
    qed
  next
    assume "(\<exists>u t. c # cs = u @ t \<and> in_lang r u) \<or> (\<exists>a u t. cs = a @ u @ t \<and> in_lang r u)"
    then show "\<exists>a u t. c # cs = a @ u @ t \<and> in_lang r u"
    proof
      assume "\<exists>u t. c # cs = u @ t \<and> in_lang r u"
      then obtain u t where "c # cs = [] @ u @ t" "in_lang r u" by auto
      then show ?thesis by blast
    next
      assume "\<exists>a u t. cs = a @ u @ t \<and> in_lang r u"
      then obtain a u t where "c # cs = (c # a) @ u @ t" "in_lang r u" by auto
      then show ?thesis by blast
    qed
  qed
  then show ?case
    using Cons.IH by (simp add: match_here_nonempty_iff)
qed

lemma in_lang_htmlTag:
  "in_lang htmlTag u \<longleftrightarrow> (\<exists>b. u = ''<'' @ b @ ''>'' \<and> CHR ''>'' \<notin> set b)"
  unfolding htmlTag_def by auto

lemma isHtmlContent_iff:
  "isHtmlContent s \<longleftrightarrow> (\<exists>a b c. s = a @ ''<'' @ b @ ''>'' @ c \<and> CHR ''>'' \<notin> set b)"
proof -
  have "isHtmlContent s \<longleftrightarrow> (\<exists>a u t. s = a @ u @ t \<and> in_lang htmlTag u)"
    by (simp add: isHtmlContent_def test_search_iff)
  also have "\<dots> \<longleftrightarrow> (\<exists>a b c. s = a @ ''<'' @ b @ ''>'' @ c \<and> CHR ''>'' \<notin> set b)"
  proof
    assume "\<exists>a u t. s = a @ u @ t \<and> in_lang htmlTag u"
    then obtain a u t b where "s = a @ u @ t" and "u = ''<'' @ b @ ''>''" and b: "CHR ''>'' \<notin> set b"
      unfolding in_lang_htmlTag by blast
    then have "s = a @ ''<'' @ b @ ''>'' @ t" by simp
    then show "\<exists>a b c. s = a @ ''<'' @ b @ ''>'' @ c \<and> CHR ''>'' \<notin> set b"
      using b by blast
  next
    assume "\<exists>a b c. s = a @ ''<'' @ b @ ''>'' @ c \<and> CHR ''>'' \<notin> set b"
    then obtain a b c where "s = a @ ''<'' @ b @ ''>'' @ c" and b: "CHR ''>'' \<notin> set b"
      by blast
    then have "s = a @ (''<'' @ b @ ''>'') @ c" by simp
    moreover have "in_lang htmlTag (''<'' @ b @ ''>'')"
      unfolding in_lang_htmlTag using b by blast
    ultimately show "\<exists>a u t. s = a @ u @ t \<and> in_lang htmlTag u"
      by blast
  qed
  finally show ?thesis .
qed

section \<open>Validation of a decoded message\<close>

lemma trim_empty_iff: "trim s = [] \<longleftrightarrow> (\<forall>c\<in>set s. is_whitespace c)"
proof -
  have "trim s = [] \<longleftrightarrow> (\<forall>c\<in>set (dropWhile is_whitespace s). is_whitespace c)"
    by (simp add: trim_def dropWhile_eq_Nil_conv)
  also have "\<dots> \<longleftrightarrow> dropWhile is_whitespace s = []"
  proof
    assume a: "\<forall>c\<in>set (dropWhile is_whitespace s). is_whitespace c"
    show "dropWhile is_whitespace s = []"
    proof (rule ccontr)
      assume "dropWhile is_whitespace s \<noteq> []"
      then have "\<not> is_whitespace (hd (dropWhile is_whitespace s))"
        by (rule hd_dropWhile)
      moreover have "hd (dropWhile is_whitespace s) \<in> set (dropWhile is_whitespace s)"
        using \<open>dropWhile is_whitespace s \<noteq> []\<close> by simp
      ultimately show False using a by blast
    qed
  next
    assume "dropWhile is_whitespace s = []"
    then show "\<forall>c\<in>set (dropWhile is_whitespace s). is_whitespace c"
      by (simp del: dropWhile_eq_Nil_conv)
  qed
  also have "\<dots> \<longleftrightarrow> (\<forall>c\<in>set s. is_whitespace c)"
    by (simp add: dropWhile_eq_Nil_conv)
  finally show ?thesis .
qed

lemma check_fields_append:
  "check_fields md (pre @ fs) =
     (case check_fields md pre of Inl e \<Rightarrow> Inl e | Inr _ \<Rightarrow> check_fields md fs)"
  by (induction pre) (auto split: sum.splits)

lemma validateMessage_first_failure:
  assumes "requiredFields = pre @ field # post" and "check_fields md pre = Inr ()"
    and "check_fields md [field] = Inl e"
  shows "validateMessage md = Inl e"
proof -
  have "check_fields md (field # post) = Inl e"
    using assms(3) by (auto split: sum.splits if_splits)
  then have "check_fields md requiredFields = Inl e"
    unfolding assms(1) check_fields_append using assms(2) by simp
  then show ?thesis by (simp add: validateMessage_def)
qed

lemma falsy_cases:
  "\<not> truthy v \<longleftrightarrow>
     v = None \<or> v = Some JNull \<or> v = Some (JBool False) \<or> v = Some (JNum 0) \<or> v = Some (JStr [])"
  by (cases v rule: truthy.cases) auto

text \<open>
  Claim C4, as amended. Let \<open>field\<close> be a required field such that the required fields
  before it (in the order \<open>to\<close>, \<open>subject\<close>, \<open>message\<close>) pass their checks. When the field
  is absent, \<open>_validateMessage\<close> throws \<open>Missing required field\<close> naming it. When it is
  present with a falsy value (\<open>null\<close>, \<open>false\<close>, \<open>0\<close> or the empty string: see
  \<open>falsy_cases\<close>), the error is that same missing-field error. When it is present with a
  truthy value that is not a string (a number other than zero, \<open>true\<close>, an array, an
  object), the error is \<open>Field '...' must be a string\<close>, which differs from the
  missing-field error.
\<close>

theorem validateMessage_missing_or_wrong_type:
  assumes "requiredFields = pre @ field # post" and "check_fields md pre = Inr ()"
    and "get_field md field = Inr v"
  shows "(v = None \<longrightarrow> validateMessage md = Inl (Error (''Missing required field: '' @ field)))
    \<and> (v \<noteq> None \<and> \<not> truthy v \<longrightarrow>
         validateMessage md = Inl (Error (''Missing required field: '' @ field)))
    \<and> (truthy v \<and> \<not> is_string v \<longrightarrow>
         validateMessage md =
           Inl (Error (''Field '' @ [apos] @ field @ [apos] @ '' must be a string'')))
    \<and> Error (''Missing required field: '' @ field) \<noteq>
        Error (''Field '' @ [apos] @ field @ [apos] @ '' must be a string'')"
proof (intro conjI impI)
  assume "v = None"
  then have "check_fields md [field] = Inl (Error (''Missing required field: '' @ field))"
    using assms(3) by simp
  then show "validateMessage md = Inl (Error (''Missing required field: '' @ field))"
    by (rule validateMessage_first_failure[OF assms(1,2)])
next
  assume "v \<noteq> None \<and> \<not> truthy v"
  then have "check_fields md [field] = Inl (Error (''Missing required field: '' @ field))"
    using assms(3) by simp
  then show "validateMessage md = Inl (Error (''Missing required field: '' @ field))"
    by (rule validateMessage_first_failure[OF assms(1,2)])
next
  assume "truthy v \<and> \<not> is_string v"
  then have "check_fields md [field] =
      Inl (Error (''Field '' @ [apos] @ field @ [apos] @ '' must be a string''))"
    using assms(3) by simp
  then show "validateMessage md =
      Inl (Error (''Field '' @ [apos] @ field @ [apos] @ '' must be a string''))"
    by (rule validateMessage_first_failure[OF assms(1,2)])
next
  show "Error (''Missing required field: '' @ field) \<noteq>
        Error (''Field '' @ [apos] @ field @ [apos] @ '' must be a string'')"
    by simp
qed

theorem validateMessage_missing_or_wrong_type_witness:
  "validateMessage (JObj [(''to'', JStr ''a@b.com''), (''subject'', JNum 5)]) =
     Inl (Error (''Field '' @ [apos] @ ''subject'' @ [apos] @ '' must be a string''))"
  using validateMessage_missing_or_wrong_type
    [of "[''to'']" "''subject''" "[''message'']"
        "JObj [(''to'', JStr ''a@b.com''), (''subject'', JNum 5)]" "Some (JNum 5)"]
  by (simp add: requiredFields_def trim_def is_whitespace_def)

text \<open>
  Claim C4 as stated fails: in \<open>{"to": 0, "subject": "Hi", "message": "hello"}\<close> the field
  \<open>to\<close> is present and holds a number, and the error is the missing-field error, not the
  type error. And the first field that fails decides: in \<open>{"to": 5, "message": "hello"}\<close>
  the field \<open>subject\<close> is absent, and the error is the type error of \<open>to\<close>.
\<close>

theorem present_falsy_value_reported_missing:
  "get_field (JObj [(''to'', JNum 0), (''subject'', JStr ''Hi''), (''message'', JStr ''hello'')]) ''to'' =
     Inr (Some (JNum 0))
   \<and> \<not> is_string (Some (JNum 0))
   \<and> validateMessage (JObj [(''to'', JNum 0), (''subject'', JStr ''Hi''), (''message'', JStr ''hello'')]) =
       Inl (Error ''Missing required field: to'')
   \<and> validateMessage (JObj [(''to'', JNum 0), (''subject'', JStr ''Hi''), (''message'', JStr ''hello'')]) \<noteq>
       Inl (Error (''Field '' @ [apos] @ ''to'' @ [apos] @ '' must be a string''))
   \<and> get_field (JObj [(''to'', JNum 5), (''message'', JStr ''hello'')]) ''subject'' = Inr None
   \<and> validateMessage (JObj [(''to'', JNum 5), (''message'', JStr ''hello'')]) =
       Inl (Error (''Field '' @ [apos] @ ''to'' @ [apos] @ '' must be a string''))"
  by (simp add: validateMessage_def requiredFields_def)

text \<open>
  Claim C5, as amended. Let \<open>field\<close> be a required field such that the required fields
  before it pass their checks, and let it hold the string \<open>s\<close>. When \<open>s\<close> is not empty and
  consists of white space only, \<open>_validateMessage\<close> throws \<open>Field '...' cannot be empty\<close>.
  When \<open>s\<close> is the empty string, the error is \<open>Missing required field\<close>.
\<close>

theorem validateMessage_blank_string:
  assumes "requiredFields = pre @ field # post" and "check_fields md pre = Inr ()"
    and "get_field md field = Inr (Some (JStr s))"
  shows "(s \<noteq> [] \<and> (\<forall>c\<in>set s. is_whitespace c) \<longrightarrow>
           validateMessage md =
             Inl (Error (''Field '' @ [apos] @ field @ [apos] @ '' cannot be empty'')))
    \<and> (s = [] \<longrightarrow> validateMessage md = Inl (Error (''Missing required field: '' @ field)))"
proof (intro conjI impI)
  assume "s \<noteq> [] \<and> (\<forall>c\<in>set s. is_whitespace c)"
  then have "s \<noteq> []" and "trim s = []"
    by (simp_all add: trim_empty_iff)
  then have "check_fields md [field] =
      Inl (Error (''Field '' @ [apos] @ field @ [apos] @ '' cannot be empty''))"
    using assms(3) by simp
  then show "validateMessage md =
      Inl (Error (''Field '' @ [apos] @ field @ [apos] @ '' cannot be empty''))"
    by (rule validateMessage_first_failure[OF assms(1,2)])
next
  assume "s = []"
  then have "check_fields md [field] = Inl (Error (''Missing required field: '' @ field))"
    using assms(3) by simp
  then show "validateMessage md = Inl (Error (''Missing required field: '' @ field))"
    by (rule validateMessage_first_failure[OF assms(1,2)])
qed

theorem validateMessage_blank_string_witness:
  "validateMessage (JObj [(''to'', JStr ''a@b.com''), (''subject'', JStr ''Hi''), (''message'', JStr ''  '')]) =
     Inl (Error (''Field '' @ [apos] @ ''message'' @ [apos] @ '' cannot be empty''))"
  using validateMessage_blank_string
    [of "[''to'', ''subject'']" "''message''" "[]"
        "JObj [(''to'', JStr ''a@b.com''), (''subject'', JStr ''Hi''), (''message'', JStr ''  '')]" "''  ''"]
  by (simp add: requiredFields_def trim_def is_whitespace_def)

text \<open>
  Claim C5 as stated fails: in \<open>{"to": "", "subject": "Hi", "message": "hello"}\<close> the field
  \<open>to\<close> is a string that trims to length zero, and the error is the missing-field error,
  not the empty-field error. And the first field that fails decides: in
  \<open>{"subject": "  ", "message": "hello"}\<close> the blank \<open>subject\<close> is not reported, the
  missing \<open>to\<close> is.
\<close>

theorem empty_string_reported_missing:
  "get_field (JObj [(''to'', JStr []), (''subject'', JStr ''Hi''), (''message'', JStr ''hello'')]) ''to'' =
     Inr (Some (JStr []))
   \<and> length (trim []) = 0
   \<and> validateMessage (JObj [(''to'', JStr []), (''subject'', JStr ''Hi''), (''message'', JStr ''hello'')]) =
       Inl (Error ''Missing required field: to'')
   \<and> validateMessage (JObj [(''to'', JStr []), (''subject'', JStr ''Hi''), (''message'', JStr ''hello'')]) \<noteq>
       Inl (Error (''Field '' @ [apos] @ ''to'' @ [apos] @ '' cannot be empty''))
   \<and> length (trim ''  '') = 0
   \<and> validateMessage (JObj [(''subject'', JStr ''  ''), (''message'', JStr ''hello'')]) =
       Inl (Error ''Missing required field: to'')"
  by (simp add: validateMessage_def requiredFields_def trim_def is_whitespace_def)

section \<open>The retry loop\<close>

lemma initialize_settings:
  "fst (initialize (Inr t) True new_EmailService) = Inr ()"
  "isInitialized (fst (snd (initialize (Inr t) True new_EmailService)))"
  "retryAttempts (fst (snd (initialize (Inr t) True new_EmailService))) = 3"
  "retryDelay (fst (snd (initialize (Inr t) True new_EmailService))) = 1000"
  by (simp_all add: initialize_def new_EmailService_def)

lemma string_of_nat_1: "string_of_nat 1 = ''1''"
  by (simp add: string_of_nat.simps)

lemma string_of_nat_2: "string_of_nat 2 = ''2''"
  by (simp add: string_of_nat.simps)

lemma string_of_nat_3: "string_of_nat 3 = ''3''"
  by (simp add: string_of_nat.simps)

lemma string_of_nat_30000: "string_of_nat 30000 = ''30000''"
  by (simp add: string_of_nat.simps)

lemmas string_of_nat_digits = string_of_nat_1 string_of_nat_2 string_of_nat_3

lemma send_attempts_first_succeeds:
  assumes "retryAttempts svc = 3" and "sendMail 1 = (d1, Inr i1)"
  shows "send_attempts svc sendMail data 1 =
    (Inr (Some (SendResult True (info_messageId i1) 1)),
     [SendMail data d1,
      Log LogInfo ''Email sent successfully''
        [(''to'', MStr (mail_to data)), (''subject'', MStr (mail_subject data)),
         (''messageId'', MStr (info_messageId i1)), (''attempt'', MNat 1)]])"
  using assms by (subst send_attempts.simps) (simp del: One_nat_def)

lemma send_attempts_second_succeeds:
  assumes "retryAttempts svc = 3" and "retryDelay svc = 1000"
    and "sendMail 1 = (d1, Inl e1)" and "sendMail 2 = (d2, Inr i2)"
  shows "send_attempts svc sendMail data 1 =
    (Inr (Some (SendResult True (info_messageId i2) 2)),
     [SendMail data d1,
      Log LogWarn ''Email send attempt 1 failed''
        [(''to'', MStr (mail_to data)), (''subject'', MStr (mail_subject data)),
         (''error'', MStr (err_message e1)), (''attempt'', MNat 1)],
      Delay 1000,
      SendMail data d2,
      Log LogInfo ''Email sent successfully''
        [(''to'', MStr (mail_to data)), (''subject'', MStr (mail_subject data)),
         (''messageId'', MStr (info_messageId i2)), (''attempt'', MNat 2)]])"
proof -
  have "send_attempts svc sendMail data 2 =
    (Inr (Some (SendResult True (info_messageId i2) 2)),
     [SendMail data d2,
      Log LogInfo ''Email sent successfully''
        [(''to'', MStr (mail_to data)), (''subject'', MStr (mail_subject data)),
         (''messageId'', MStr (info_messageId i2)), (''attempt'', MNat 2)]])"
    using assms by (subst send_attempts.simps) (simp del: One_nat_def)
  then show ?thesis
    using assms by (subst send_attempts.simps) (simp del: One_nat_def add: string_of_nat_digits)
qed

lemma send_attempts_third:
  assumes "retryAttempts svc = 3"
  shows "send_attempts svc sendMail data 3 =
    (case sendMail 3 of
       (d3, Inr i3) \<Rightarrow>
         (Inr (Some (SendResult True (info_messageId i3) 3)),
          [SendMail data d3,
           Log LogInfo ''Email sent successfully''
             [(''to'', MStr (mail_to data)), (''subject'', MStr (mail_subject data)),
              (''messageId'', MStr (info_messageId i3)), (''attempt'', MNat 3)]])
     | (d3, Inl e3) \<Rightarrow>
         (Inl e3,
          [SendMail data d3,
           Log LogWarn ''Email send attempt 3 failed''
             [(''to'', MStr (mail_to data)), (''subject'', MStr (mail_subject data)),
              (''error'', MStr (err_message e3)), (''attempt'', MNat 3)],
           Log LogError ''All email send attempts failed''
             [(''to'', MStr (mail_to data)), (''subject'', MStr (mail_subject data)),
              (''error'', MStr (err_message e3)), (''totalAttempts'', MNat 3)]]))"
  using assms
  by (subst send_attempts.simps) (simp del: One_nat_def add: string_of_nat_digits split: prod.splits sum.splits)

lemma send_attempts_two_fail:
  assumes "retryAttempts svc = 3" and "retryDelay svc = 1000"
    and "sendMail 1 = (d1, Inl e1)" and "sendMail 2 = (d2, Inl e2)"
  shows "send_attempts svc sendMail data 1 =
    (fst (send_attempts svc sendMail data 3),
     [SendMail data d1,
      Log LogWarn ''Email send attempt 1 failed''
        [(''to'', MStr (mail_to data)), (''subject'', MStr (mail_subject data)),
         (''error'', MStr (err_message e1)), (''attempt'', MNat 1)],
      Delay 1000,
      SendMail data d2,
      Log LogWarn ''Email send attempt 2 failed''
        [(''to'', MStr (mail_to data)), (''subject'', MStr (mail_subject data)),
         (''error'', MStr (err_message e2)), (''attempt'', MNat 2)],
      Delay 2000] @ snd (send_attempts svc sendMail data 3))"
proof -
  have "send_attempts svc sendMail data 2 =
    (fst (send_attempts svc sendMail data 3),
     [SendMail data d2,
      Log LogWarn ''Email send attempt 2 failed''
        [(''to'', MStr (mail_to data)), (''subject'', MStr (mail_subject data)),
         (''error'', MStr (err_message e2)), (''attempt'', MNat 2)],
      Delay 2000] @ snd (send_attempts svc sendMail data 3))"
    using assms
    by (subst send_attempts.simps) (simp del: One_nat_def add: string_of_nat_digits split: prod.splits)
  then show ?thesis
    using assms by (subst send_attempts.simps) (simp del: One_nat_def add: string_of_nat_digits)
qed

lemma sendEmail_valid:
  assumes "isInitialized svc" and "validateEmailParams to subject message = Inr ()"
  shows "sendEmail svc env sendMail to subject message =
    (fst (send_attempts svc sendMail (emailData env (str_of to) (str_of subject) (str_of message)) 1),
     Log LogInfo ''Attempting to send email''
       [(''to'', MStr (str_of to)), (''subject'', MStr (str_of subject)),
        (''messageLength'', MNat (length (str_of message)))] #
     snd (send_attempts svc sendMail (emailData env (str_of to) (str_of subject) (str_of message)) 1))"
  using assms by (simp add: sendEmail_def split: prod.splits)

lemma sendEmail_three_failures:
  assumes "isInitialized svc" and "retryAttempts svc = 3" and "retryDelay svc = 1000"
    and "validateEmailParams to subject message = Inr ()"
    and "sendMail 1 = (d1, Inl e1)" and "sendMail 2 = (d2, Inl e2)" and "sendMail 3 = (d3, Inl e3)"
    and "data = emailData env (str_of to) (str_of subject) (str_of message)"
  shows "sendEmail svc env sendMail to subject message =
    (Inl e3,
     [Log LogInfo ''Attempting to send email''
        [(''to'', MStr (str_of to)), (''subject'', MStr (str_of subject)),
         (''messageLength'', MNat (length (str_of message)))],
      SendMail data d1,
      Log LogWarn ''Email send attempt 1 failed''
        [(''to'', MStr (mail_to data)), (''subject'', MStr (mail_subject data)),
         (''error'', MStr (err_message e1)), (''attempt'', MNat 1)],
      Delay 1000,
      SendMail data d2,
      Log LogWarn ''Email send attempt 2 failed''
        [(''to'', MStr (mail_to data)), (''subject'', MStr (mail_subject data)),
         (''error'', MStr (err_message e2)), (''attempt'', MNat 2)],
      Delay 2000,
      SendMail data d3,
      Log LogWarn ''Email send attempt 3 failed''
        [(''to'', MStr (mail_to data)), (''subject'', MStr (mail_subject data)),
         (''error'', MStr (err_message e3)), (''attempt'', MNat 3)],
      Log LogError ''All email send attempts failed''
        [(''to'', MStr (mail_to data)), (''subject'', MStr (mail_subject data)),
         (''error'', MStr (err_message e3)), (''totalAttempts'', MNat 3)]])"
proof -
  have 3: "send_attempts svc sendMail data 3 =
    (Inl e3,
     [SendMail data d3,
      Log LogWarn ''Email send attempt 3 failed''
        [(''to'', MStr (mail_to data)), (''subject'', MStr (mail_subject data)),
         (''error'', MStr (err_message e3)), (''attempt'', MNat 3)],
      Log LogError ''All email send attempts failed''
        [(''to'', MStr (mail_to data)), (''subject'', MStr (mail_subject data)),
         (''error'', MStr (err_message e3)), (''totalAttempts'', MNat 3)]])"
    using assms(7) by (simp add: send_attempts_third[OF assms(2)])
  show ?thesis
    unfolding sendEmail_valid[OF assms(1,4)] assms(8)[symmetric]
      send_attempts_two_fail[OF assms(2,3,5,6)] 3
    by simp
qed

lemma sendEmail_fail_then_succeed:
  assumes "isInitialized svc" and "retryAttempts svc = 3" and "retryDelay svc = 1000"
    and "validateEmailParams to subject message = Inr ()"
    and "sendMail 1 = (d1, Inl e1)" and "sendMail 2 = (d2, Inr i2)"
    and "data = emailData env (str_of to) (str_of subject) (str_of message)"
  shows "sendEmail svc env sendMail to subject message =
    (Inr (Some (SendResult True (info_messageId i2) 2)),
     [Log LogInfo ''Attempting to send email''
        [(''to'', MStr (str_of to)), (''subject'', MStr (str_of subject)),
         (''messageLength'', MNat (length (str_of message)))],
      SendMail data d1,
      Log LogWarn ''Email send attempt 1 failed''
        [(''to'', MStr (mail_to data)), (''subject'', MStr (mail_subject data)),
         (''error'', MStr (err_message e1)), (''attempt'', MNat 1)],
      Delay 1000,
      SendMail data d2,
      Log LogInfo ''Email sent successfully''
        [(''to'', MStr (mail_to data)), (''subject'', MStr (mail_subject data)),
         (''messageId'', MStr (info_messageId i2)), (''attempt'', MNat 2)]])
    \<and> length (filter is_send (snd (sendEmail svc env sendMail to subject message))) = 2"
proof -
  have "sendEmail svc env sendMail to subject message =
    (Inr (Some (SendResult True (info_messageId i2) 2)),
     [Log LogInfo ''Attempting to send email''
        [(''to'', MStr (str_of to)), (''subject'', MStr (str_of subject)),
         (''messageLength'', MNat (length (str_of message)))],
      SendMail data d1,
      Log LogWarn ''Email send attempt 1 failed''
        [(''to'', MStr (mail_to data)), (''subject'', MStr (mail_subject data)),
         (''error'', MStr (err_message e1)), (''attempt'', MNat 1)],
      Delay 1000,
      SendMail data d2,
      Log LogInfo ''Email sent successfully''
        [(''to'', MStr (mail_to data)), (''subject'', MStr (mail_subject data)),
         (''messageId'', MStr (info_messageId i2)), (''attempt'', MNat 2)]])"
    unfolding sendEmail_valid[OF assms(1,4)] assms(7)[symmetric]
      send_attempts_second_succeeds[OF assms(2,3,5,6)]
    by simp
  then show ?thesis by simp
qed

lemma sample_params_valid:
  "validateEmailParams (Some (JStr ''a@b.com'')) (Some (JStr ''Hi'')) (Some (JStr ''hello'')) = Inr ()"
  by (simp add: validateEmailParams_def isValidEmail_def test_anchored_def emailRegex_def
      not_space_at_def is_whitespace_def trim_def)

lemma sample_emailData:
  "emailData \<lparr>MAIL_FROM = None, MAIL_USER = Some ''svc@example.com''\<rparr> ''a@b.com'' ''Hi'' ''hello'' =
     \<lparr>mail_from = Some ''svc@example.com'', mail_to = ''a@b.com'', mail_subject = ''Hi'',
      mail_html = ''hello'', mail_text = ''hello''\<rparr>"
  by code_simp

section \<open>The parts of the outgoing email\<close>

lemma send_attempts_data:
  "SendMail data' d \<in> set (snd (send_attempts svc sendMail data attempt)) \<Longrightarrow> data' = data"
proof (induction svc sendMail data attempt rule: send_attempts.induct)
  case (1 svc sendMail data attempt)
  from "1.prems" show ?case
    by (subst (asm) send_attempts.simps)
       (auto split: if_splits prod.splits sum.splits dest: "1.IH")
qed

text \<open>
  Claim C9, as amended. Every email that \<open>sendEmail\<close> hands to the backend is built from a
  string body as follows. When the body contains a tag (\<open>isHtmlContent\<close>: see
  \<open>isHtmlContent_iff\<close>), the HTML part is the body unchanged and the text part is the body
  with every tag removed. Otherwise the text part is the body unchanged and the HTML part
  is the body with every line feed replaced by \<open><br>\<close> and then every pair of spaces
  replaced by \<open>&nbsp;&nbsp;\<close>.
\<close>

theorem sendEmail_html_and_text_parts:
  assumes "SendMail data d \<in> set (snd (sendEmail svc env sendMail to subject message))"
  shows "is_string message
    \<and> (isHtmlContent (str_of message) \<longrightarrow>
         mail_html data = str_of message \<and>
         mail_text data = replace_all htmlTag [] (str_of message))
    \<and> (\<not> isHtmlContent (str_of message) \<longrightarrow>
         mail_text data = str_of message \<and>
         mail_html data =
           replace_all [One (\<lambda>c. c = CHR '' ''), One (\<lambda>c. c = CHR '' '')] ''&nbsp;&nbsp;''
             (replace_all [One (\<lambda>c. c = CHR 0x0A)] ''<br>'' (str_of message)))"
proof -
  from assms have init: "isInitialized svc"
    and valid: "validateEmailParams to subject message = Inr ()"
    by (auto simp: sendEmail_def split: if_splits sum.splits)
  from valid have str: "is_string message"
    by (auto simp: validateEmailParams_def split: if_splits)
  from assms have "SendMail data d \<in> set (snd (send_attempts svc sendMail
      (emailData env (str_of to) (str_of subject) (str_of message)) 1))"
    unfolding sendEmail_valid[OF init valid] by simp
  then have "data = emailData env (str_of to) (str_of subject) (str_of message)"
    by (rule send_attempts_data)
  then show ?thesis
    using str by (simp add: emailData_def convertToHtml_def stripHtml_def)
qed

lemma sample_html_body:
  "isHtmlContent ''<b>Hi</b> there'' \<and> replace_all htmlTag [] ''<b>Hi</b> there'' = ''Hi there''"
  by code_simp

theorem sendEmail_html_and_text_parts_witness:
  "mail_html (emailData \<lparr>MAIL_FROM = None, MAIL_USER = Some ''svc@example.com''\<rparr>
       ''a@b.com'' ''Hi'' ''<b>Hi</b> there'') = ''<b>Hi</b> there''
   \<and> mail_text (emailData \<lparr>MAIL_FROM = None, MAIL_USER = Some ''svc@example.com''\<rparr>
       ''a@b.com'' ''Hi'' ''<b>Hi</b> there'') = ''Hi there''"
proof -
  have valid: "validateEmailParams (Some (JStr ''a@b.com'')) (Some (JStr ''Hi''))
      (Some (JStr ''<b>Hi</b> there'')) = Inr ()"
    by (simp add: validateEmailParams_def isValidEmail_def test_anchored_def emailRegex_def
        not_space_at_def is_whitespace_def trim_def)
  have sent: "SendMail (emailData \<lparr>MAIL_FROM = None, MAIL_USER = Some ''svc@example.com''\<rparr>
        ''a@b.com'' ''Hi'' ''<b>Hi</b> there'') 20
      \<in> set (snd (sendEmail
          \<lparr>transporter = Some (Transporter True), isInitialized = True, retryAttempts = 3,
            retryDelay = 1000\<rparr>
          \<lparr>MAIL_FROM = None, MAIL_USER = Some ''svc@example.com''\<rparr>
          (\<lambda>k. (20, Inr (Info ''msg-1'')))
          (Some (JStr ''a@b.com'')) (Some (JStr ''Hi'')) (Some (JStr ''<b>Hi</b> there''))))"
    by (simp del: One_nat_def add: sendEmail_valid[OF _ valid]
        send_attempts_first_succeeds[where ?i1.0 = "Info ''msg-1''" and ?d1.0 = 20])
  show ?thesis
    using sendEmail_html_and_text_parts[OF sent] sample_html_body by simp
qed

text \<open>
  Claim C9 as stated fails: the body \<open>a  b\<close> (two spaces) contains no tag and no line
  feed, so converting line feeds leaves it unchanged, but its HTML part is
  \<open>a&nbsp;&nbsp;b\<close>.
\<close>

theorem double_space_becomes_nbsp:
  "\<not> isHtmlContent ''a  b''
   \<and> replace_all [One (\<lambda>c. c = CHR 0x0A)] ''<br>'' ''a  b'' = ''a  b''
   \<and> mail_html (emailData \<lparr>MAIL_FROM = None, MAIL_USER = Some ''svc@example.com''\<rparr>
        ''a@b.com'' ''Hi'' ''a  b'') = ''a&nbsp;&nbsp;b''"
  by code_simp

section \<open>The timeout of a dispatch\<close>

lemma check_fields_is_string:
  "check_fields md fs = Inr () \<Longrightarrow> field \<in> set fs \<Longrightarrow>
   \<exists>s. get_field md field = Inr (Some (JStr s)) \<and> s \<noteq> [] \<and> trim s \<noteq> []"
proof (induction fs)
  case Nil
  then show ?case by simp
next
  case (Cons f fs)
  from Cons.prems(1) obtain v where v: "get_field md f = Inr v"
    and t: "truthy v" and s: "is_string v" and e: "trim (str_of v) \<noteq> []"
    and rest: "check_fields md fs = Inr ()"
    by (auto split: sum.splits if_splits)
  from s obtain x where x: "v = Some (JStr x)"
    by (cases v rule: is_string.cases) auto
  show ?case
  proof (cases "field = f")
    case True
    then show ?thesis using v t e x by simp
  next
    case False
    then show ?thesis using Cons.IH[OF rest] Cons.prems(2) by simp
  qed
qed

lemma validateMessage_ok:
  assumes "validateMessage md = Inr ()"
  shows "get_field md ''to'' = Inr (read_prop md ''to'')"
    and "get_field md ''subject'' = Inr (read_prop md ''subject'')"
    and "get_field md ''message'' = Inr (read_prop md ''message'')"
    and "validateEmailParams (read_prop md ''to'') (read_prop md ''subject'') (read_prop md ''message'') = Inr ()"
proof -
  from assms have cf: "check_fields md requiredFields = Inr ()"
    by (auto simp: validateMessage_def split: sum.splits)
  obtain t where t: "get_field md ''to'' = Inr (Some (JStr t))" "t \<noteq> []" "trim t \<noteq> []"
    using check_fields_is_string[OF cf, of "''to''"] by (auto simp: requiredFields_def)
  obtain s where s: "get_field md ''subject'' = Inr (Some (JStr s))" "s \<noteq> []" "trim s \<noteq> []"
    using check_fields_is_string[OF cf, of "''subject''"] by (auto simp: requiredFields_def)
  obtain m where m: "get_field md ''message'' = Inr (Some (JStr m))" "m \<noteq> []" "trim m \<noteq> []"
    using check_fields_is_string[OF cf, of "''message''"] by (auto simp: requiredFields_def)
  from assms cf t have re: "test_anchored emailRegex t"
    by (auto simp: validateMessage_def split: if_splits)
  show "get_field md ''to'' = Inr (read_prop md ''to'')"
    using t by (simp add: read_prop_def)
  show "get_field md ''subject'' = Inr (read_prop md ''subject'')"
    using s by (simp add: read_prop_def)
  show "get_field md ''message'' = Inr (read_prop md ''message'')"
    using m by (simp add: read_prop_def)
  show "validateEmailParams (read_prop md ''to'') (read_prop md ''subject'') (read_prop md ''message'') = Inr ()"
    using t s m re by (simp add: read_prop_def validateEmailParams_def isValidEmail_def)
qed

lemma sendEmailWithTimeout_valid:
  assumes "validateMessage md = Inr ()"
  shows "sendEmailWithTimeout c svc env sendMail md =
    (if messageProcessingTimeout c \<le> elapsed (snd (sendEmail svc env sendMail
          (read_prop md ''to'') (read_prop md ''subject'') (read_prop md ''message'')))
     then Inl (Error (''Email sending timeout after '' @
                      string_of_nat (messageProcessingTimeout c) @ ''ms''))
     else fst (sendEmail svc env sendMail
          (read_prop md ''to'') (read_prop md ''subject'') (read_prop md ''message'')),
     snd (sendEmail svc env sendMail
          (read_prop md ''to'') (read_prop md ''subject'') (read_prop md ''message'')))"
  unfolding sendEmailWithTimeout_def validateMessage_ok(1-3)[OF assms]
  by (simp split: prod.splits)

lemma elapsed_send_attempts:
  assumes "retryAttempts svc = 3" and "retryDelay svc = 1000"
  shows "elapsed (snd (send_attempts svc sendMail data 1)) =
    (case snd (sendMail 1) of
       Inr _ \<Rightarrow> fst (sendMail 1)
     | Inl _ \<Rightarrow>
         (case snd (sendMail 2) of
            Inr _ \<Rightarrow> fst (sendMail 1) + 1000 + fst (sendMail 2)
          | Inl _ \<Rightarrow> fst (sendMail 1) + 1000 + fst (sendMail 2) + 2000 + fst (sendMail 3)))"
proof (cases "sendMail 1")
  case (Pair d1 r1)
  show ?thesis
  proof (cases r1)
    case (Inr i1)
    show ?thesis
      using Pair Inr send_attempts_first_succeeds[OF assms(1), of sendMail d1 i1 data]
      by (simp add: elapsed_def)
  next
    case (Inl e1)
    note first = Pair[unfolded Inl]
    show ?thesis
    proof (cases "sendMail 2")
      case (Pair d2 r2)
      show ?thesis
      proof (cases r2)
        case (Inr i2)
        show ?thesis
          using first Pair Inr
            send_attempts_second_succeeds[OF assms, of sendMail d1 e1 d2 i2 data]
          by (simp add: elapsed_def)
      next
        case (Inl e2)
        have "elapsed (snd (send_attempts svc sendMail data 3)) = fst (sendMail 3)"
          unfolding send_attempts_third[OF assms(1)]
          by (simp add: elapsed_def split: prod.splits sum.splits)
        then show ?thesis
          using first Pair Inl
            send_attempts_two_fail[OF assms, of sendMail d1 e1 d2 e2 data]
          by (simp add: elapsed_def)
      qed
    qed
  qed
qed

lemma elapsed_Cons: "elapsed (e # evs) = duration e + elapsed evs"
  by (simp add: elapsed_def)

lemma send_attempts_outcome:
  assumes "retryAttempts svc = 3" and "retryDelay svc = 1000"
  shows "fst (send_attempts svc sendMail data 1) =
    (case snd (sendMail 1) of
       Inr i \<Rightarrow> Inr (Some (SendResult True (info_messageId i) 1))
     | Inl _ \<Rightarrow>
         (case snd (sendMail 2) of
            Inr i \<Rightarrow> Inr (Some (SendResult True (info_messageId i) 2))
          | Inl _ \<Rightarrow>
              (case snd (sendMail 3) of
                 Inr i \<Rightarrow> Inr (Some (SendResult True (info_messageId i) 3))
               | Inl e \<Rightarrow> Inl e)))"
    and "length (filter is_send (snd (send_attempts svc sendMail data 1))) =
    (case snd (sendMail 1) of
       Inr _ \<Rightarrow> 1
     | Inl _ \<Rightarrow> (case snd (sendMail 2) of Inr _ \<Rightarrow> 2 | Inl _ \<Rightarrow> 3))"
proof -
  obtain d1 r1 where 1: "sendMail 1 = (d1, r1)" by (cases "sendMail 1")
  obtain d2 r2 where 2: "sendMail 2 = (d2, r2)" by (cases "sendMail 2")
  have third: "fst (send_attempts svc sendMail data 3) =
      (case snd (sendMail 3) of
         Inr i \<Rightarrow> Inr (Some (SendResult True (info_messageId i) 3))
       | Inl e \<Rightarrow> Inl e)"
    and third_sends: "length (filter is_send (snd (send_attempts svc sendMail data 3))) = 1"
    unfolding send_attempts_third[OF assms(1)]
    by (simp_all split: prod.splits sum.splits)
  have "fst (send_attempts svc sendMail data 1) =
    (case snd (sendMail 1) of
       Inr i \<Rightarrow> Inr (Some (SendResult True (info_messageId i) 1))
     | Inl _ \<Rightarrow>
         (case snd (sendMail 2) of
            Inr i \<Rightarrow> Inr (Some (SendResult True (info_messageId i) 2))
          | Inl _ \<Rightarrow>
              (case snd (sendMail 3) of
                 Inr i \<Rightarrow> Inr (Some (SendResult True (info_messageId i) 3))
               | Inl e \<Rightarrow> Inl e)))
    \<and> length (filter is_send (snd (send_attempts svc sendMail data 1))) =
    (case snd (sendMail 1) of
       Inr _ \<Rightarrow> 1
     | Inl _ \<Rightarrow> (case snd (sendMail 2) of Inr _ \<Rightarrow> 2 | Inl _ \<Rightarrow> 3))"
  proof (cases r1)
    case (Inr i1)
    then show ?thesis
      using 1 send_attempts_first_succeeds[OF assms(1), of sendMail d1 i1 data] by simp
  next
    case e1: (Inl e1)
    show ?thesis
    proof (cases r2)
      case (Inr i2)
      then show ?thesis
        using 1 2 e1 send_attempts_second_succeeds[OF assms, of sendMail d1 e1 d2 i2 data] by simp
    next
      case (Inl e2)
      then show ?thesis
        using 1 2 e1 third third_sends
          send_attempts_two_fail[OF assms, of sendMail d1 e1 d2 e2 data]
        by simp
    qed
  qed
  then show "fst (send_attempts svc sendMail data 1) =
    (case snd (sendMail 1) of
       Inr i \<Rightarrow> Inr (Some (SendResult True (info_messageId i) 1))
     | Inl _ \<Rightarrow>
         (case snd (sendMail 2) of
            Inr i \<Rightarrow> Inr (Some (SendResult True (info_messageId i) 2))
          | Inl _ \<Rightarrow>
              (case snd (sendMail 3) of
                 Inr i \<Rightarrow> Inr (Some (SendResult True (info_messageId i) 3))
               | Inl e \<Rightarrow> Inl e)))"
    and "length (filter is_send (snd (send_attempts svc sendMail data 1))) =
    (case snd (sendMail 1) of
       Inr _ \<Rightarrow> 1
     | Inl _ \<Rightarrow> (case snd (sendMail 2) of Inr _ \<Rightarrow> 2 | Inl _ \<Rightarrow> 3))"
    by simp_all
qed

lemma sendEmail_outcome:
  assumes "isInitialized svc" and "retryAttempts svc = 3" and "retryDelay svc = 1000"
    and "validateEmailParams to subject message = Inr ()"
  shows "fst (sendEmail svc env sendMail to subject message) =
    (case snd (sendMail 1) of
       Inr i \<Rightarrow> Inr (Some (SendResult True (info_messageId i) 1))
     | Inl _ \<Rightarrow>
         (case snd (sendMail 2) of
            Inr i \<Rightarrow> Inr (Some (SendResult True (info_messageId i) 2))
          | Inl _ \<Rightarrow>
              (case snd (sendMail 3) of
                 Inr i \<Rightarrow> Inr (Some (SendResult True (info_messageId i) 3))
               | Inl e \<Rightarrow> Inl e)))"
    and "length (filter is_send (snd (sendEmail svc env sendMail to subject message))) =
    (case snd (sendMail 1) of
       Inr _ \<Rightarrow> 1
     | Inl _ \<Rightarrow> (case snd (sendMail 2) of Inr _ \<Rightarrow> 2 | Inl _ \<Rightarrow> 3))"
    and "elapsed (snd (sendEmail svc env sendMail to subject message)) =
    (case snd (sendMail 1) of
       Inr _ \<Rightarrow> fst (sendMail 1)
     | Inl _ \<Rightarrow>
         (case snd (sendMail 2) of
            Inr _ \<Rightarrow> fst (sendMail 1) + 1000 + fst (sendMail 2)
          | Inl _ \<Rightarrow> fst (sendMail 1) + 1000 + fst (sendMail 2) + 2000 + fst (sendMail 3)))"
  unfolding sendEmail_valid[OF assms(1,4)]
  by (simp_all del: One_nat_def
      add: send_attempts_outcome[OF assms(2,3)] elapsed_send_attempts[OF assms(2,3)] elapsed_Cons)

lemma new_NotificationConsumer_timeout:
  "messageProcessingTimeout new_NotificationConsumer = 30000"
  by (simp add: new_NotificationConsumer_def)

text \<open>
  Claim C1, as amended. For a validated message and an initialised service with the
  constructor's settings, \<open>_sendEmailWithTimeout\<close> sets one timer of 30000 ms around the
  whole call of \<open>sendEmail\<close>. The time that call takes is the sum of the times of the
  attempts made and of the waits between them (1000 ms and 2000 ms). When this is less
  than 30000 ms the dispatch has the outcome of \<open>sendEmail\<close>; when it is more, the
  dispatch fails with the timeout error, whatever \<open>sendEmail\<close> returns. In both cases the
  events are those of \<open>sendEmail\<close>: no attempt has a timeout of its own, and the timer
  stops nothing.
\<close>

theorem timeout_covers_whole_dispatch:
  assumes "messageProcessingTimeout c = 30000"
    and "isInitialized svc" and "retryAttempts svc = 3" and "retryDelay svc = 1000"
    and "validateMessage md = Inr ()"
  shows "snd (sendEmailWithTimeout c svc env sendMail md) =
      snd (sendEmail svc env sendMail
             (read_prop md ''to'') (read_prop md ''subject'') (read_prop md ''message''))
    \<and> elapsed (snd (sendEmailWithTimeout c svc env sendMail md)) =
        (case snd (sendMail 1) of
           Inr _ \<Rightarrow> fst (sendMail 1)
         | Inl _ \<Rightarrow>
             (case snd (sendMail 2) of
                Inr _ \<Rightarrow> fst (sendMail 1) + 1000 + fst (sendMail 2)
              | Inl _ \<Rightarrow> fst (sendMail 1) + 1000 + fst (sendMail 2) + 2000 + fst (sendMail 3)))
    \<and> (elapsed (snd (sendEmailWithTimeout c svc env sendMail md)) < 30000 \<longrightarrow>
         fst (sendEmailWithTimeout c svc env sendMail md) =
           fst (sendEmail svc env sendMail
                  (read_prop md ''to'') (read_prop md ''subject'') (read_prop md ''message'')))
    \<and> (30000 < elapsed (snd (sendEmailWithTimeout c svc env sendMail md)) \<longrightarrow>
         fst (sendEmailWithTimeout c svc env sendMail md) =
           Inl (Error ''Email sending timeout after 30000ms''))"
proof -
  note valid = validateMessage_ok(4)[OF assms(5)]
  have evs: "snd (sendEmailWithTimeout c svc env sendMail md) =
      snd (sendEmail svc env sendMail
             (read_prop md ''to'') (read_prop md ''subject'') (read_prop md ''message''))"
    by (simp add: sendEmailWithTimeout_valid[OF assms(5)])
  have time: "elapsed (snd (sendEmail svc env sendMail
             (read_prop md ''to'') (read_prop md ''subject'') (read_prop md ''message''))) =
        (case snd (sendMail 1) of
           Inr _ \<Rightarrow> fst (sendMail 1)
         | Inl _ \<Rightarrow>
             (case snd (sendMail 2) of
                Inr _ \<Rightarrow> fst (sendMail 1) + 1000 + fst (sendMail 2)
              | Inl _ \<Rightarrow> fst (sendMail 1) + 1000 + fst (sendMail 2) + 2000 + fst (sendMail 3)))"
    using elapsed_send_attempts[OF assms(3,4), of sendMail]
    by (simp add: sendEmail_valid[OF assms(2) valid] elapsed_def)
  show ?thesis
    unfolding evs
    by (intro conjI impI refl time)
       (simp_all add: sendEmailWithTimeout_valid[OF assms(5)] assms(1) string_of_nat_30000)
qed

lemma sample_message_valid:
  "validateMessage (JObj [(''to'', JStr ''a@b.com''), (''subject'', JStr ''Hi''), (''message'', JStr ''hello'')]) =
     Inr ()"
  by (simp add: validateMessage_def requiredFields_def trim_def is_whitespace_def test_anchored_def
      emailRegex_def not_space_at_def)

theorem timeout_covers_whole_dispatch_witness:
  "elapsed (snd (sendEmailWithTimeout
      \<lparr>isRunning = True, messageProcessingTimeout = 30000\<rparr>
      \<lparr>transporter = Some (Transporter True), isInitialized = True, retryAttempts = 3,
        retryDelay = 1000\<rparr>
      \<lparr>MAIL_FROM = None, MAIL_USER = Some ''svc@example.com''\<rparr>
      (\<lambda>k. (12000, if k < 3 then Inl (Error ''connection refused'') else Inr (Info ''msg-3'')))
      (JObj [(''to'', JStr ''a@b.com''), (''subject'', JStr ''Hi''), (''message'', JStr ''hello'')]))) =
     39000
   \<and> fst (sendEmailWithTimeout
      \<lparr>isRunning = True, messageProcessingTimeout = 30000\<rparr>
      \<lparr>transporter = Some (Transporter True), isInitialized = True, retryAttempts = 3,
        retryDelay = 1000\<rparr>
      \<lparr>MAIL_FROM = None, MAIL_USER = Some ''svc@example.com''\<rparr>
      (\<lambda>k. (12000, if k < 3 then Inl (Error ''connection refused'') else Inr (Info ''msg-3'')))
      (JObj [(''to'', JStr ''a@b.com''), (''subject'', JStr ''Hi''), (''message'', JStr ''hello'')])) =
     Inl (Error ''Email sending timeout after 30000ms'')"
proof -
  note t = timeout_covers_whole_dispatch
    [where c = "\<lparr>isRunning = True, messageProcessingTimeout = 30000\<rparr>"
       and svc = "\<lparr>transporter = Some (Transporter True), isInitialized = True, retryAttempts = 3,
         retryDelay = 1000\<rparr>"
       and env = "\<lparr>MAIL_FROM = None, MAIL_USER = Some ''svc@example.com''\<rparr>"
       and sendMail = "\<lambda>k. (12000, if k < 3 then Inl (Error ''connection refused'') else Inr (Info ''msg-3''))",
     OF _ _ _ _ sample_message_valid, simplified]
  from t have e: "elapsed (snd (sendEmailWithTimeout
      \<lparr>isRunning = True, messageProcessingTimeout = 30000\<rparr>
      \<lparr>transporter = Some (Transporter True), isInitialized = True, retryAttempts = 3,
        retryDelay = 1000\<rparr>
      \<lparr>MAIL_FROM = None, MAIL_USER = Some ''svc@example.com''\<rparr>
      (\<lambda>k. (12000, if k < 3 then Inl (Error ''connection refused'') else Inr (Info ''msg-3'')))
      (JObj [(''to'', JStr ''a@b.com''), (''subject'', JStr ''Hi''), (''message'', JStr ''hello'')]))) =
     39000"
    by (elim conjE)
  with t show ?thesis by simp
qed

text \<open>
  Claim C1 as stated fails. With three attempts of 12 s each, the first two failing and
  the third succeeding, no attempt takes 30 s and \<open>sendEmail\<close> returns success on attempt
  3, but the dispatch fails with the timeout error (the timer has run for the 39 s of the
  whole call). With a first attempt that succeeds after 40 s, the dispatch fails with
  the timeout error and the backend is called once: no next attempt follows the attempt
  that exceeded the timeout.
\<close>

theorem timeout_is_not_per_attempt:
  "fst (sendEmail
      \<lparr>transporter = Some (Transporter True), isInitialized = True, retryAttempts = 3,
        retryDelay = 1000\<rparr>
      \<lparr>MAIL_FROM = None, MAIL_USER = Some ''svc@example.com''\<rparr>
      (\<lambda>k. (12000, if k < 3 then Inl (Error ''connection refused'') else Inr (Info ''msg-3'')))
      (Some (JStr ''a@b.com'')) (Some (JStr ''Hi'')) (Some (JStr ''hello''))) =
     Inr (Some (SendResult True ''msg-3'' 3))
   \<and> fst (sendEmailWithTimeout
      \<lparr>isRunning = True, messageProcessingTimeout = 30000\<rparr>
      \<lparr>transporter = Some (Transporter True), isInitialized = True, retryAttempts = 3,
        retryDelay = 1000\<rparr>
      \<lparr>MAIL_FROM = None, MAIL_USER = Some ''svc@example.com''\<rparr>
      (\<lambda>k. (12000, if k < 3 then Inl (Error ''connection refused'') else Inr (Info ''msg-3'')))
      (JObj [(''to'', JStr ''a@b.com''), (''subject'', JStr ''Hi''), (''message'', JStr ''hello'')])) =
     Inl (Error ''Email sending timeout after 30000ms'')
   \<and> fst (sendEmailWithTimeout
      \<lparr>isRunning = True, messageProcessingTimeout = 30000\<rparr>
      \<lparr>transporter = Some (Transporter True), isInitialized = True, retryAttempts = 3,
        retryDelay = 1000\<rparr>
      \<lparr>MAIL_FROM = None, MAIL_USER = Some ''svc@example.com''\<rparr>
      (\<lambda>k. if k = 1 then (40000, Inr (Info ''msg-1'')) else (10, Inr (Info ''msg-2'')))
      (JObj [(''to'', JStr ''a@b.com''), (''subject'', JStr ''Hi''), (''message'', JStr ''hello'')])) =
     Inl (Error ''Email sending timeout after 30000ms'')
   \<and> length (filter is_send (snd (sendEmailWithTimeout
      \<lparr>isRunning = True, messageProcessingTimeout = 30000\<rparr>
      \<lparr>transporter = Some (Transporter True), isInitialized = True, retryAttempts = 3,
        retryDelay = 1000\<rparr>
      \<lparr>MAIL_FROM = None, MAIL_USER = Some ''svc@example.com''\<rparr>
      (\<lambda>k. if k = 1 then (40000, Inr (Info ''msg-1'')) else (10, Inr (Info ''msg-2'')))
      (JObj [(''to'', JStr ''a@b.com''), (''subject'', JStr ''Hi''), (''message'', JStr ''hello'')])))) = 1"
  by (simp del: One_nat_def
      add: sendEmailWithTimeout_valid[OF sample_message_valid] read_prop_def
        sendEmail_outcome[OF _ _ _ sample_params_valid] string_of_nat_30000)

section \<open>A failing backend seen through the dispatch\<close>

text \<open>
  Claim C2, as amended. For a validated message and an initialised service with the
  constructor's settings, when the backend answers each of the three calls with an
  error, the dispatch does exactly this: it calls the backend, waits 1000 ms, calls it
  again, waits 2000 ms, calls it a third time, and logs that all attempts failed with
  \<open>totalAttempts\<close> 3 (the count is in this log line only). There is no wait after the
  third attempt and no fourth call. When the three calls and the two waits together take
  less than 30000 ms, the dispatch fails with the third error of the backend; when they
  take more, it fails with the timeout error.
\<close>

theorem dispatch_all_attempts_fail:
  assumes "messageProcessingTimeout c = 30000"
    and "isInitialized svc" and "retryAttempts svc = 3" and "retryDelay svc = 1000"
    and "validateMessage md = Inr ()"
    and "sendMail 1 = (d1, Inl e1)" and "sendMail 2 = (d2, Inl e2)" and "sendMail 3 = (d3, Inl e3)"
    and "data = emailData env (str_of (read_prop md ''to'')) (str_of (read_prop md ''subject''))
           (str_of (read_prop md ''message''))"
  shows "snd (sendEmailWithTimeout c svc env sendMail md) =
     [Log LogInfo ''Attempting to send email''
        [(''to'', MStr (mail_to data)), (''subject'', MStr (mail_subject data)),
         (''messageLength'', MNat (length (str_of (read_prop md ''message''))))],
      SendMail data d1,
      Log LogWarn ''Email send attempt 1 failed''
        [(''to'', MStr (mail_to data)), (''subject'', MStr (mail_subject data)),
         (''error'', MStr (err_message e1)), (''attempt'', MNat 1)],
      Delay 1000,
      SendMail data d2,
      Log LogWarn ''Email send attempt 2 failed''
        [(''to'', MStr (mail_to data)), (''subject'', MStr (mail_subject data)),
         (''error'', MStr (err_message e2)), (''attempt'', MNat 2)],
      Delay 2000,
      SendMail data d3,
      Log LogWarn ''Email send attempt 3 failed''
        [(''to'', MStr (mail_to data)), (''subject'', MStr (mail_subject data)),
         (''error'', MStr (err_message e3)), (''attempt'', MNat 3)],
      Log LogError ''All email send attempts failed''
        [(''to'', MStr (mail_to data)), (''subject'', MStr (mail_subject data)),
         (''error'', MStr (err_message e3)), (''totalAttempts'', MNat 3)]]
    \<and> (d1 + 1000 + d2 + 2000 + d3 < 30000 \<longrightarrow>
         fst (sendEmailWithTimeout c svc env sendMail md) = Inl e3)
    \<and> (30000 < d1 + 1000 + d2 + 2000 + d3 \<longrightarrow>
         fst (sendEmailWithTimeout c svc env sendMail md) =
           Inl (Error ''Email sending timeout after 30000ms''))"
proof -
  note valid = validateMessage_ok(4)[OF assms(5)]
  note loop = sendEmail_three_failures[OF assms(2-4) valid assms(6-8) assms(9)]
  have parts: "mail_to data = str_of (read_prop md ''to'')"
    "mail_subject data = str_of (read_prop md ''subject'')"
    by (simp_all add: assms(9) emailData_def)
  show ?thesis
    unfolding sendEmailWithTimeout_valid[OF assms(5)] loop assms(1) parts
    by (simp add: elapsed_def string_of_nat_30000)
qed

theorem dispatch_all_attempts_fail_witness:
  "sendEmailWithTimeout
     \<lparr>isRunning = True, messageProcessingTimeout = 30000\<rparr>
     \<lparr>transporter = Some (Transporter True), isInitialized = True, retryAttempts = 3,
       retryDelay = 1000\<rparr>
     \<lparr>MAIL_FROM = None, MAIL_USER = Some ''svc@example.com''\<rparr>
     (\<lambda>k. (50, Inl (Error ''connection refused'')))
     (JObj [(''to'', JStr ''a@b.com''), (''subject'', JStr ''Hi''), (''message'', JStr ''hello'')]) =
   (Inl (Error ''connection refused''),
    [Log LogInfo ''Attempting to send email''
       [(''to'', MStr ''a@b.com''), (''subject'', MStr ''Hi''), (''messageLength'', MNat 5)],
     SendMail
       \<lparr>mail_from = Some ''svc@example.com'', mail_to = ''a@b.com'', mail_subject = ''Hi'',
         mail_html = ''hello'', mail_text = ''hello''\<rparr> 50,
     Log LogWarn ''Email send attempt 1 failed''
       [(''to'', MStr ''a@b.com''), (''subject'', MStr ''Hi''),
        (''error'', MStr ''connection refused''), (''attempt'', MNat 1)],
     Delay 1000,
     SendMail
       \<lparr>mail_from = Some ''svc@example.com'', mail_to = ''a@b.com'', mail_subject = ''Hi'',
         mail_html = ''hello'', mail_text = ''hello''\<rparr> 50,
     Log LogWarn ''Email send attempt 2 failed''
       [(''to'', MStr ''a@b.com''), (''subject'', MStr ''Hi''),
        (''error'', MStr ''connection refused''), (''attempt'', MNat 2)],
     Delay 2000,
     SendMail
       \<lparr>mail_from = Some ''svc@example.com'', mail_to = ''a@b.com'', mail_subject = ''Hi'',
         mail_html = ''hello'', mail_text = ''hello''\<rparr> 50,
     Log LogWarn ''Email send attempt 3 failed''
       [(''to'', MStr ''a@b.com''), (''subject'', MStr ''Hi''),
        (''error'', MStr ''connection refused''), (''attempt'', MNat 3)],
     Log LogError ''All email send attempts failed''
       [(''to'', MStr ''a@b.com''), (''subject'', MStr ''Hi''),
        (''error'', MStr ''connection refused''), (''totalAttempts'', MNat 3)]])"
proof -
  note t = dispatch_all_attempts_fail
    [where c = "\<lparr>isRunning = True, messageProcessingTimeout = 30000\<rparr>"
       and svc = "\<lparr>transporter = Some (Transporter True), isInitialized = True, retryAttempts = 3,
         retryDelay = 1000\<rparr>"
       and env = "\<lparr>MAIL_FROM = None, MAIL_USER = Some ''svc@example.com''\<rparr>"
       and sendMail = "\<lambda>k. (50, Inl (Error ''connection refused''))"
       and ?d1.0 = 50 and ?d2.0 = 50 and ?d3.0 = 50
       and ?e1.0 = "Error ''connection refused''" and ?e2.0 = "Error ''connection refused''"
       and ?e3.0 = "Error ''connection refused''",
     OF _ _ _ _ sample_message_valid _ _ _ refl]
  have "fst (sendEmailWithTimeout
     \<lparr>isRunning = True, messageProcessingTimeout = 30000\<rparr>
     \<lparr>transporter = Some (Transporter True), isInitialized = True, retryAttempts = 3,
       retryDelay = 1000\<rparr>
     \<lparr>MAIL_FROM = None, MAIL_USER = Some ''svc@example.com''\<rparr>
     (\<lambda>k. (50, Inl (Error ''connection refused'')))
     (JObj [(''to'', JStr ''a@b.com''), (''subject'', JStr ''Hi''), (''message'', JStr ''hello'')])) =
     Inl (Error ''connection refused'')"
    using t by simp
  moreover have "snd (sendEmailWithTimeout
     \<lparr>isRunning = True, messageProcessingTimeout = 30000\<rparr>
     \<lparr>transporter = Some (Transporter True), isInitialized = True, retryAttempts = 3,
       retryDelay = 1000\<rparr>
     \<lparr>MAIL_FROM = None, MAIL_USER = Some ''svc@example.com''\<rparr>
     (\<lambda>k. (50, Inl (Error ''connection refused'')))
     (JObj [(''to'', JStr ''a@b.com''), (''subject'', JStr ''Hi''), (''message'', JStr ''hello'')])) =
    [Log LogInfo ''Attempting to send email''
       [(''to'', MStr ''a@b.com''), (''subject'', MStr ''Hi''), (''messageLength'', MNat 5)],
     SendMail
       \<lparr>mail_from = Some ''svc@example.com'', mail_to = ''a@b.com'', mail_subject = ''Hi'',
         mail_html = ''hello'', mail_text = ''hello''\<rparr> 50,
     Log LogWarn ''Email send attempt 1 failed''
       [(''to'', MStr ''a@b.com''), (''subject'', MStr ''Hi''),
        (''error'', MStr ''connection refused''), (''attempt'', MNat 1)],
     Delay 1000,
     SendMail
       \<lparr>mail_from = Some ''svc@example.com'', mail_to = ''a@b.com'', mail_subject = ''Hi'',
         mail_html = ''hello'', mail_text = ''hello''\<rparr> 50,
     Log LogWarn ''Email send attempt 2 failed''
       [(''to'', MStr ''a@b.com''), (''subject'', MStr ''Hi''),
        (''error'', MStr ''connection refused''), (''attempt'', MNat 2)],
     Delay 2000,
     SendMail
       \<lparr>mail_from = Some ''svc@example.com'', mail_to = ''a@b.com'', mail_subject = ''Hi'',
         mail_html = ''hello'', mail_text = ''hello''\<rparr> 50,
     Log LogWarn ''Email send attempt 3 failed''
       [(''to'', MStr ''a@b.com''), (''subject'', MStr ''Hi''),
        (''error'', MStr ''connection refused''), (''attempt'', MNat 3)],
     Log LogError ''All email send attempts failed''
       [(''to'', MStr ''a@b.com''), (''subject'', MStr ''Hi''),
        (''error'', MStr ''connection refused''), (''totalAttempts'', MNat 3)]]"
    using t by (simp add: read_prop_def sample_emailData)
  ultimately show ?thesis
    by (simp add: prod_eq_iff)
qed

text \<open>
  Claim C2 as stated fails: when the backend answers each call with an error after
  10 s, the retry loop makes its three calls and ends with the backend's error, but the
  dispatch fails with the timeout error, not with the last error of the backend.
\<close>

theorem slow_failures_end_in_timeout:
  "fst (sendEmail
      \<lparr>transporter = Some (Transporter True), isInitialized = True, retryAttempts = 3,
        retryDelay = 1000\<rparr>
      \<lparr>MAIL_FROM = None, MAIL_USER = Some ''svc@example.com''\<rparr>
      (\<lambda>k. (10000, Inl (Error ''connection refused'')))
      (Some (JStr ''a@b.com'')) (Some (JStr ''Hi'')) (Some (JStr ''hello''))) =
     Inl (Error ''connection refused'')
   \<and> fst (sendEmailWithTimeout
      \<lparr>isRunning = True, messageProcessingTimeout = 30000\<rparr>
      \<lparr>transporter = Some (Transporter True), isInitialized = True, retryAttempts = 3,
        retryDelay = 1000\<rparr>
      \<lparr>MAIL_FROM = None, MAIL_USER = Some ''svc@example.com''\<rparr>
      (\<lambda>k. (10000, Inl (Error ''connection refused'')))
      (JObj [(''to'', JStr ''a@b.com''), (''subject'', JStr ''Hi''), (''message'', JStr ''hello'')])) =
     Inl (Error ''Email sending timeout after 30000ms'')
   \<and> length (filter is_send (snd (sendEmailWithTimeout
      \<lparr>isRunning = True, messageProcessingTimeout = 30000\<rparr>
      \<lparr>transporter = Some (Transporter True), isInitialized = True, retryAttempts = 3,
        retryDelay = 1000\<rparr>
      \<lparr>MAIL_FROM = None, MAIL_USER = Some ''svc@example.com''\<rparr>
      (\<lambda>k. (10000, Inl (Error ''connection refused'')))
      (JObj [(''to'', JStr ''a@b.com''), (''subject'', JStr ''Hi''), (''message'', JStr ''hello'')])))) = 3"
  by (simp del: One_nat_def
      add: sendEmailWithTimeout_valid[OF sample_message_valid] read_prop_def
        sendEmail_outcome[OF _ _ _ sample_params_valid] string_of_nat_30000)

text \<open>
  Claim C7, as amended. For a validated message and an initialised service with the
  constructor's settings, when the backend answers the first call with an error and the
  second with success, the dispatch calls the backend exactly twice, with a wait of
  1000 ms between. When the two calls and the wait together take less than 30000 ms, the
  dispatch returns the success result with the second call's message id and \<open>attempt\<close>
  2; when they take more, it fails with the timeout error.
\<close>

theorem dispatch_second_attempt_succeeds:
  assumes "messageProcessingTimeout c = 30000"
    and "isInitialized svc" and "retryAttempts svc = 3" and "retryDelay svc = 1000"
    and "validateMessage md = Inr ()"
    and "sendMail 1 = (d1, Inl e1)" and "sendMail 2 = (d2, Inr i2)"
    and "data = emailData env (str_of (read_prop md ''to'')) (str_of (read_prop md ''subject''))
           (str_of (read_prop md ''message''))"
  shows "snd (sendEmailWithTimeout c svc env sendMail md) =
     [Log LogInfo ''Attempting to send email''
        [(''to'', MStr (mail_to data)), (''subject'', MStr (mail_subject data)),
         (''messageLength'', MNat (length (str_of (read_prop md ''message''))))],
      SendMail data d1,
      Log LogWarn ''Email send attempt 1 failed''
        [(''to'', MStr (mail_to data)), (''subject'', MStr (mail_subject data)),
         (''error'', MStr (err_message e1)), (''attempt'', MNat 1)],
      Delay 1000,
      SendMail data d2,
      Log LogInfo ''Email sent successfully''
        [(''to'', MStr (mail_to data)), (''subject'', MStr (mail_subject data)),
         (''messageId'', MStr (info_messageId i2)), (''attempt'', MNat 2)]]
    \<and> length (filter is_send (snd (sendEmailWithTimeout c svc env sendMail md))) = 2
    \<and> (d1 + 1000 + d2 < 30000 \<longrightarrow>
         fst (sendEmailWithTimeout c svc env sendMail md) =
           Inr (Some (SendResult True (info_messageId i2) 2)))
    \<and> (30000 < d1 + 1000 + d2 \<longrightarrow>
         fst (sendEmailWithTimeout c svc env sendMail md) =
           Inl (Error ''Email sending timeout after 30000ms''))"
proof -
  note valid = validateMessage_ok(4)[OF assms(5)]
  note loop = sendEmail_fail_then_succeed[OF assms(2-4) valid assms(6,7) assms(8), THEN conjunct1]
  have parts: "mail_to data = str_of (read_prop md ''to'')"
    "mail_subject data = str_of (read_prop md ''subject'')"
    by (simp_all add: assms(8) emailData_def)
  show ?thesis
    unfolding sendEmailWithTimeout_valid[OF assms(5)] loop assms(1) parts
    by (simp add: elapsed_def string_of_nat_30000)
qed

theorem dispatch_second_attempt_succeeds_witness:
  "sendEmailWithTimeout
     \<lparr>isRunning = True, messageProcessingTimeout = 30000\<rparr>
     \<lparr>transporter = Some (Transporter True), isInitialized = True, retryAttempts = 3,
       retryDelay = 1000\<rparr>
     \<lparr>MAIL_FROM = None, MAIL_USER = Some ''svc@example.com''\<rparr>
     (\<lambda>k. if k = 1 then (50, Inl (Error ''connection refused'')) else (70, Inr (Info ''msg-7'')))
     (JObj [(''to'', JStr ''a@b.com''), (''subject'', JStr ''Hi''), (''message'', JStr ''hello'')]) =
   (Inr (Some (SendResult True ''msg-7'' 2)),
    [Log LogInfo ''Attempting to send email''
       [(''to'', MStr ''a@b.com''), (''subject'', MStr ''Hi''), (''messageLength'', MNat 5)],
     SendMail
       \<lparr>mail_from = Some ''svc@example.com'', mail_to = ''a@b.com'', mail_subject = ''Hi'',
         mail_html = ''hello'', mail_text = ''hello''\<rparr> 50,
     Log LogWarn ''Email send attempt 1 failed''
       [(''to'', MStr ''a@b.com''), (''subject'', MStr ''Hi''),
        (''error'', MStr ''connection refused''), (''attempt'', MNat 1)],
     Delay 1000,
     SendMail
       \<lparr>mail_from = Some ''svc@example.com'', mail_to = ''a@b.com'', mail_subject = ''Hi'',
         mail_html = ''hello'', mail_text = ''hello''\<rparr> 70,
     Log LogInfo ''Email sent successfully''
       [(''to'', MStr ''a@b.com''), (''subject'', MStr ''Hi''),
        (''messageId'', MStr ''msg-7''), (''attempt'', MNat 2)]])"
proof -
  note t = dispatch_second_attempt_succeeds
    [where c = "\<lparr>isRunning = True, messageProcessingTimeout = 30000\<rparr>"
       and svc = "\<lparr>transporter = Some (Transporter True), isInitialized = True, retryAttempts = 3,
         retryDelay = 1000\<rparr>"
       and env = "\<lparr>MAIL_FROM = None, MAIL_USER = Some ''svc@example.com''\<rparr>"
       and sendMail = "\<lambda>k. if k = 1 then (50, Inl (Error ''connection refused'')) else (70, Inr (Info ''msg-7''))"
       and ?d1.0 = 50 and ?d2.0 = 70
       and ?e1.0 = "Error ''connection refused''" and ?i2.0 = "Info ''msg-7''",
     OF _ _ _ _ sample_message_valid _ _ refl]
  have "fst (sendEmailWithTimeout
     \<lparr>isRunning = True, messageProcessingTimeout = 30000\<rparr>
     \<lparr>transporter = Some (Transporter True), isInitialized = True, retryAttempts = 3,
       retryDelay = 1000\<rparr>
     \<lparr>MAIL_FROM = None, MAIL_USER = Some ''svc@example.com''\<rparr>
     (\<lambda>k. if k = 1 then (50, Inl (Error ''connection refused'')) else (70, Inr (Info ''msg-7'')))
     (JObj [(''to'', JStr ''a@b.com''), (''subject'', JStr ''Hi''), (''message'', JStr ''hello'')])) =
     Inr (Some (SendResult True ''msg-7'' 2))"
    using t by simp
  moreover have "snd (sendEmailWithTimeout
     \<lparr>isRunning = True, messageProcessingTimeout = 30000\<rparr>
     \<lparr>transporter = Some (Transporter True), isInitialized = True, retryAttempts = 3,
       retryDelay = 1000\<rparr>
     \<lparr>MAIL_FROM = None, MAIL_USER = Some ''svc@example.com''\<rparr>
     (\<lambda>k. if k = 1 then (50, Inl (Error ''connection refused'')) else (70, Inr (Info ''msg-7'')))
     (JObj [(''to'', JStr ''a@b.com''), (''subject'', JStr ''Hi''), (''message'', JStr ''hello'')])) =
    [Log LogInfo ''Attempting to send email''
       [(''to'', MStr ''a@b.com''), (''subject'', MStr ''Hi''), (''messageLength'', MNat 5)],
     SendMail
       \<lparr>mail_from = Some ''svc@example.com'', mail_to = ''a@b.com'', mail_subject = ''Hi'',
         mail_html = ''hello'', mail_text = ''hello''\<rparr> 50,
     Log LogWarn ''Email send attempt 1 failed''
       [(''to'', MStr ''a@b.com''), (''subject'', MStr ''Hi''),
        (''error'', MStr ''connection refused''), (''attempt'', MNat 1)],
     Delay 1000,
     SendMail
       \<lparr>mail_from = Some ''svc@example.com'', mail_to = ''a@b.com'', mail_subject = ''Hi'',
         mail_html = ''hello'', mail_text = ''hello''\<rparr> 70,
     Log LogInfo ''Email sent successfully''
       [(''to'', MStr ''a@b.com''), (''subject'', MStr ''Hi''),
        (''messageId'', MStr ''msg-7''), (''attempt'', MNat 2)]]"
    using t by (simp add: read_prop_def sample_emailData)
  ultimately show ?thesis
    by (simp add: prod_eq_iff)
qed

text \<open>
  Claim C7 as stated fails: when the backend fails after 20 s and then succeeds after
  20 s, the retry loop returns success on attempt 2, but the dispatch fails with the
  timeout error.
\<close>

theorem slow_second_success_ends_in_timeout:
  "fst (sendEmail
      \<lparr>transporter = Some (Transporter True), isInitialized = True, retryAttempts = 3,
        retryDelay = 1000\<rparr>
      \<lparr>MAIL_FROM = None, MAIL_USER = Some ''svc@example.com''\<rparr>
      (\<lambda>k. if k = 1 then (20000, Inl (Error ''connection refused'')) else (20000, Inr (Info ''msg-7'')))
      (Some (JStr ''a@b.com'')) (Some (JStr ''Hi'')) (Some (JStr ''hello''))) =
     Inr (Some (SendResult True ''msg-7'' 2))
   \<and> fst (sendEmailWithTimeout
      \<lparr>isRunning = True, messageProcessingTimeout = 30000\<rparr>
      \<lparr>transporter = Some (Transporter True), isInitialized = True, retryAttempts = 3,
        retryDelay = 1000\<rparr>
      \<lparr>MAIL_FROM = None, MAIL_USER = Some ''svc@example.com''\<rparr>
      (\<lambda>k. if k = 1 then (20000, Inl (Error ''connection refused'')) else (20000, Inr (Info ''msg-7'')))
      (JObj [(''to'', JStr ''a@b.com''), (''subject'', JStr ''Hi''), (''message'', JStr ''hello'')])) =
     Inl (Error ''Email sending timeout after 30000ms'')"
  by (simp del: One_nat_def
      add: sendEmailWithTimeout_valid[OF sample_message_valid] read_prop_def
        sendEmail_outcome[OF _ _ _ sample_params_valid] string_of_nat_30000)

section \<open>Errors of a record\<close>



lemma map_snd_stamp: "map snd (stamp t evs) = evs"
  by (induction evs arbitrary: t) simp_all

lemma map_snd_shift: "map snd (shift t tevs) = map snd tevs"
  by (simp add: shift_def case_prod_beta)

lemma stamp_append: "stamp t (xs @ ys) = stamp t xs @ stamp (t + elapsed xs) ys"
  by (induction xs arbitrary: t) (simp_all add: elapsed_Cons elapsed_def add.assoc)

lemma stamp_times:
  "(u, ev) \<in> set (stamp t evs) \<Longrightarrow> t \<le> u \<and> u \<le> t + elapsed evs"
proof (induction evs arbitrary: t)
  case Nil
  then show ?case by simp
next
  case (Cons e evs)
  from Cons.prems have "(u, ev) = (t, e) \<or> (u, ev) \<in> set (stamp (t + duration e) evs)"
    by simp
  then show ?case
  proof
    assume "(u, ev) = (t, e)"
    then show ?thesis by simp
  next
    assume "(u, ev) \<in> set (stamp (t + duration e) evs)"
    from Cons.IH[OF this] show ?thesis by (simp add: elapsed_Cons)
  qed
qed




lemma takeWhile_stamp_in_time:
  assumes "elapsed evs < T"
  shows "takeWhile (\<lambda>(u, ev). u < T) (stamp 0 evs) = stamp 0 evs"
    and "dropWhile (\<lambda>(u, ev). u < T) (stamp 0 evs) = []"
proof -
  have "\<forall>x\<in>set (stamp 0 evs). (\<lambda>(u, ev). u < T) x"
  proof
    fix x assume "x \<in> set (stamp 0 evs)"
    then have "(fst x, snd x) \<in> set (stamp 0 evs)" by simp
    from stamp_times[OF this] assms show "(\<lambda>(u, ev). u < T) x"
      by (simp add: case_prod_beta)
  qed
  then show "takeWhile (\<lambda>(u, ev). u < T) (stamp 0 evs) = stamp 0 evs"
    and "dropWhile (\<lambda>(u, ev). u < T) (stamp 0 evs) = []"
    by (simp_all add: takeWhile_eq_all_conv)
qed







lemma parseMessage_decode_error:
  assumes "msg_value message = Some payload" and "json_parse payload = Inl e"
  shows "fst (parseMessage json_parse message) = Inl (Error (''Invalid JSON payload: '' @
      (if payload = [] then ''Message payload is empty or null'' else err_message e)))"
  using assms by (simp add: parseMessage_def)

lemma parseMessage_decoded:
  assumes "msg_value message = Some payload" and "payload \<noteq> []" and "json_parse payload = Inr md"
  shows "parseMessage json_parse message =
    (Inr md, [Log LogDebug ''Message parsed successfully'' [(''payload'', MStr payload)]])"
  using assms by (simp add: parseMessage_def meta_of_def)








lemma processMessage_rejected:
  assumes "fst (parseMessage json_parse message) = Inr md" and "validateMessage md = Inl e"
  shows "filter (\<lambda>ev. \<not> is_log ev)
      (snd (processMessage json_parse c svc env sendMail topic partition_no message)) = []"
proof -
  from assms(1) have "\<exists>evs. parseMessage json_parse message = (Inr md, evs) \<and> (\<forall>ev\<in>set evs. is_log ev)"
    by (auto simp: parseMessage_def split: sum.splits option.splits if_splits)
  then obtain evs where p: "parseMessage json_parse message = (Inr md, evs)"
    and l: "\<forall>ev\<in>set evs. is_log ev"
    by blast
  show ?thesis
    using p l assms(2)
    by (simp add: processMessage_def processMessage_at_def process_steps_def processing_def
        failed_logs_def Let_def map_snd_shift map_snd_stamp filter_empty_conv)
qed

lemma validateMessage_bad_address:
  assumes "get_field md ''to'' = Inr (Some (JStr t))" and "\<not> address_shape t"
  shows "\<exists>e. validateMessage md = Inl e"
    and "check_fields md requiredFields = Inr () \<Longrightarrow>
         validateMessage md = Inl (Error (''Invalid email address format: '' @ t))"
  using assms
  by (auto simp: validateMessage_def emailRegex_shape split: sum.splits)

text \<open>
  Claim C6, as amended. Let a record decode to an object whose \<open>to\<close> is a string that does
  not have the address shape. Then \<open>_validateMessage\<close> throws; when the three required
  fields pass their checks (each is a string with a character that is not white space),
  the error is \<open>Invalid email address format\<close> followed by the address. In every case the
  processing of the record leaves nothing but log lines: the backend is not called.
\<close>

theorem invalid_address_rejected_without_dispatch:
  assumes "msg_value message = Some payload" and "payload \<noteq> []" and "json_parse payload = Inr md"
    and "get_field md ''to'' = Inr (Some (JStr t))" and "\<not> address_shape t"
  shows "(\<exists>e. validateMessage md = Inl e)
    \<and> (check_fields md requiredFields = Inr () \<longrightarrow>
         validateMessage md = Inl (Error (''Invalid email address format: '' @ t)))
    \<and> filter (\<lambda>ev. \<not> is_log ev)
         (snd (processMessage json_parse c svc env sendMail topic partition_no message)) = []"
proof (intro conjI impI)
  show rejected: "\<exists>e. validateMessage md = Inl e"
    using assms(4,5) by (rule validateMessage_bad_address(1))
  show "validateMessage md = Inl (Error (''Invalid email address format: '' @ t))"
    if "check_fields md requiredFields = Inr ()"
    using assms(4,5) that by (rule validateMessage_bad_address(2))
  from rejected obtain e where e: "validateMessage md = Inl e" ..
  have "fst (parseMessage json_parse message) = Inr md"
    using parseMessage_decoded[of message payload json_parse md] assms(1-3) by simp
  then show "filter (\<lambda>ev. \<not> is_log ev)
      (snd (processMessage json_parse c svc env sendMail topic partition_no message)) = []"
    using e by (rule processMessage_rejected)
qed

lemma not_an_email_shape: "\<not> address_shape ''not-an-email''"
  unfolding emailRegex_shape[symmetric]
  by (simp add: test_anchored_def emailRegex_def not_space_at_def is_whitespace_def)

lemma blank_shape: "\<not> address_shape '' ''"
  unfolding emailRegex_shape[symmetric]
  by (simp add: test_anchored_def emailRegex_def not_space_at_def is_whitespace_def)

theorem invalid_address_rejected_without_dispatch_witness:
  "validateMessage (JObj [(''to'', JStr ''not-an-email''), (''subject'', JStr ''Hi''),
       (''message'', JStr ''hello'')]) =
     Inl (Error ''Invalid email address format: not-an-email'')
   \<and> filter (\<lambda>ev. \<not> is_log ev)
       (snd (processMessage
          (\<lambda>s. Inr (JObj [(''to'', JStr ''not-an-email''), (''subject'', JStr ''Hi''),
             (''message'', JStr ''hello'')]))
          \<lparr>isRunning = True, messageProcessingTimeout = 30000\<rparr>
          \<lparr>transporter = Some (Transporter True), isInitialized = True, retryAttempts = 3,
            retryDelay = 1000\<rparr>
          \<lparr>MAIL_FROM = None, MAIL_USER = Some ''svc@example.com''\<rparr>
          (\<lambda>k. (20, Inr (Info ''msg-1'')))
          ''email-notifications'' 0
          \<lparr>msg_value = Some ''payload'', msg_offset = ''42'', msg_timestamp = ''1700000000000'',
            msg_key = None\<rparr>)) = []"
  using invalid_address_rejected_without_dispatch
    [where message = "\<lparr>msg_value = Some ''payload'', msg_offset = ''42'',
         msg_timestamp = ''1700000000000'', msg_key = None\<rparr>"
       and payload = "''payload''"
       and json_parse = "\<lambda>s. Inr (JObj [(''to'', JStr ''not-an-email''), (''subject'', JStr ''Hi''),
             (''message'', JStr ''hello'')])"
       and md = "JObj [(''to'', JStr ''not-an-email''), (''subject'', JStr ''Hi''),
             (''message'', JStr ''hello'')]"
       and t = "''not-an-email''"
       and c = "\<lparr>isRunning = True, messageProcessingTimeout = 30000\<rparr>"
       and svc = "\<lparr>transporter = Some (Transporter True), isInitialized = True, retryAttempts = 3,
            retryDelay = 1000\<rparr>"
       and env = "\<lparr>MAIL_FROM = None, MAIL_USER = Some ''svc@example.com''\<rparr>"
       and sendMail = "\<lambda>k. (20, Inr (Info ''msg-1''))"
       and topic = "''email-notifications''" and partition_no = 0,
     OF _ _ _ _ not_an_email_shape]
  by (simp add: requiredFields_def trim_def is_whitespace_def)

text \<open>
  Claim C6 as stated fails: the error is not always the address-format error. With \<open>to\<close>
  being \<open>not-an-email\<close> and no \<open>subject\<close>, the error is the missing-field error for
  \<open>subject\<close>; with \<open>to\<close> being a single space, it is the empty-field error for \<open>to\<close>.
\<close>

theorem bad_address_other_error_first:
  "get_field (JObj [(''to'', JStr ''not-an-email''), (''message'', JStr ''hello'')]) ''to'' =
     Inr (Some (JStr ''not-an-email''))
   \<and> ''not-an-email'' \<noteq> []
   \<and> \<not> address_shape ''not-an-email''
   \<and> validateMessage (JObj [(''to'', JStr ''not-an-email''), (''message'', JStr ''hello'')]) =
       Inl (Error ''Missing required field: subject'')
   \<and> '' '' \<noteq> []
   \<and> \<not> address_shape '' ''
   \<and> validateMessage (JObj [(''to'', JStr '' ''), (''subject'', JStr ''Hi''),
         (''message'', JStr ''hello'')]) =
       Inl (Error (''Field '' @ [apos] @ ''to'' @ [apos] @ '' cannot be empty''))"
  by (simp add: not_an_email_shape blank_shape validateMessage_def requiredFields_def trim_def
      is_whitespace_def)

section \<open>The email service before initialisation\<close>

lemma initialize_failed_keeps_flag:
  "fst (initialize g v svc) = Inl e \<Longrightarrow>
   isInitialized (fst (snd (initialize g v svc))) = isInitialized svc"
  by (auto simp: initialize_def split: sum.splits if_splits)

text \<open>
  Claim C10. While \<open>isInitialized\<close> is false, \<open>sendEmail\<close> throws the not-initialized
  error whatever its arguments are, and does nothing else: no event, so no call of the
  backend and no wait of the retry loop. The flag is false in a new service, and a call
  of \<open>initialize\<close> that fails leaves it as it was.
\<close>

theorem sendEmail_before_initialize:
  "(\<not> isInitialized svc \<longrightarrow>
      sendEmail svc env sendMail to subject message =
        (Inl (Error ''Email service not initialized. Call initialize() first.''), []))
   \<and> \<not> isInitialized new_EmailService
   \<and> (\<forall>e. fst (initialize g v svc) = Inl e \<longrightarrow>
          isInitialized (fst (snd (initialize g v svc))) = isInitialized svc)"
proof (intro conjI impI allI)
  assume "\<not> isInitialized svc"
  then show "sendEmail svc env sendMail to subject message =
        (Inl (Error ''Email service not initialized. Call initialize() first.''), [])"
    by (simp add: sendEmail_def)
next
  show "\<not> isInitialized new_EmailService"
    by (simp add: new_EmailService_def)
next
  fix e assume "fst (initialize g v svc) = Inl e"
  then show "isInitialized (fst (snd (initialize g v svc))) = isInitialized svc"
    by (rule initialize_failed_keeps_flag)
qed

theorem sendEmail_before_initialize_witness:
  "sendEmail (fst (snd (initialize (Inr (Transporter True)) False new_EmailService)))
     \<lparr>MAIL_FROM = None, MAIL_USER = Some ''svc@example.com''\<rparr>
     (\<lambda>k. (5, Inr (Info ''id'')))
     (Some (JStr ''a@b.com'')) (Some (JStr ''Hi'')) (Some (JStr ''hello'')) =
   (Inl (Error ''Email service not initialized. Call initialize() first.''), [])
   \<and> fst (initialize (Inr (Transporter True)) False new_EmailService) =
       Inl (Error ''Failed to verify mail transporter connection'')"
  using sendEmail_before_initialize
    [of "fst (snd (initialize (Inr (Transporter True)) False new_EmailService))"
        "\<lparr>MAIL_FROM = None, MAIL_USER = Some ''svc@example.com''\<rparr>"
        "\<lambda>k. (5, Inr (Info ''id''))"
        "Some (JStr ''a@b.com'')" "Some (JStr ''Hi'')" "Some (JStr ''hello'')"]
  by (simp add: initialize_def new_EmailService_def)

section \<open>Shutting down twice\<close>

lemma stop_has_no_guard:
  assumes "transporter svc = Some t" and "has_close t"
  shows "filter (\<lambda>e. \<not> is_log e) (snd (snd (stop ce c svc))) = [TransporterClose]"
    and "filter (\<lambda>e. \<not> is_log e)
           (snd (snd (stop ce' (fst (snd (stop ce c svc))) svc))) = [TransporterClose]"
  using assms by (auto simp: stop_def close_def split: option.splits)

lemma shutdown_sets_flag: "isShuttingDown (fst (fst (shutdown ce de w)))"
  by (cases w) (auto simp: shutdown_def split: sum.splits prod.splits option.splits)

lemma shutdown_when_flag:
  "isShuttingDown (fst w) \<Longrightarrow>
   shutdown ce de w =
     (w, [Log LogWarn ''Shutdown already in progress, ignoring duplicate shutdown request'' []])"
  by (cases w) (simp add: shutdown_def)

lemma shutdown_started:
  assumes "\<not> isShuttingDown app" "consumer app" "notificationConsumer app = Some c"
    "transporter svc = Some t" "has_close t"
  shows "filter (\<lambda>e. \<not> is_log e) (snd (shutdown ce de (app, svc))) = [TransporterClose, ConsumerDisconnect]"
    and "notificationConsumer (fst (fst (shutdown ce de (app, svc)))) = Some (c\<lparr>isRunning := False\<rparr>)"
  using assms
  by (auto simp: shutdown_def stop_def close_def disconnectConsumer_def split: option.splits)

text \<open>
  Claim C8. After any call of \<open>shutdown\<close>, a second call writes one warning and changes
  nothing. For a service that has been started (the Kafka consumer and the notification
  consumer exist, the transporter has a \<open>close\<close>), the two calls together stop the
  notification consumer, close the transporter and disconnect the Kafka consumer once
  each, in this order.
\<close>

theorem shutdown_twice:
  "shutdown ce2 de2 (fst (shutdown ce1 de1 w)) =
     (fst (shutdown ce1 de1 w),
      [Log LogWarn ''Shutdown already in progress, ignoring duplicate shutdown request'' []])
   \<and> (\<not> isShuttingDown (fst w) \<and> consumer (fst w) \<and> notificationConsumer (fst w) = Some c \<and>
       transporter (snd w) = Some t \<and> has_close t \<longrightarrow>
        filter (\<lambda>e. \<not> is_log e)
          (snd (shutdown ce1 de1 w) @ snd (shutdown ce2 de2 (fst (shutdown ce1 de1 w)))) =
          [TransporterClose, ConsumerDisconnect]
        \<and> notificationConsumer (fst (fst (shutdown ce1 de1 w))) = Some (c\<lparr>isRunning := False\<rparr>))"
proof (intro conjI impI)
  show second: "shutdown ce2 de2 (fst (shutdown ce1 de1 w)) =
     (fst (shutdown ce1 de1 w),
      [Log LogWarn ''Shutdown already in progress, ignoring duplicate shutdown request'' []])"
    using shutdown_sets_flag by (rule shutdown_when_flag)
  assume a: "\<not> isShuttingDown (fst w) \<and> consumer (fst w) \<and> notificationConsumer (fst w) = Some c \<and>
       transporter (snd w) = Some t \<and> has_close t"
  obtain app svc where w: "w = (app, svc)" by (cases w)
  from a w have first:
    "filter (\<lambda>e. \<not> is_log e) (snd (shutdown ce1 de1 w)) = [TransporterClose, ConsumerDisconnect]"
    using shutdown_started(1)[where app=app and svc=svc and c=c and t=t and ce=ce1 and de=de1] by simp
  show "filter (\<lambda>e. \<not> is_log e)
          (snd (shutdown ce1 de1 w) @ snd (shutdown ce2 de2 (fst (shutdown ce1 de1 w)))) =
          [TransporterClose, ConsumerDisconnect]"
    using first second by simp
  show "notificationConsumer (fst (fst (shutdown ce1 de1 w))) = Some (c\<lparr>isRunning := False\<rparr>)"
    using a w shutdown_started(2)[where app=app and svc=svc and c=c and t=t and ce=ce1 and de=de1] by simp
qed

theorem shutdown_twice_witness:
  "shutdown None None
     (fst (shutdown None None
        (\<lparr>consumer = True,
           notificationConsumer = Some \<lparr>isRunning = True, messageProcessingTimeout = 30000\<rparr>,
           isShuttingDown = False\<rparr>,
         \<lparr>transporter = Some (Transporter True), isInitialized = True, retryAttempts = 3,
           retryDelay = 1000\<rparr>))) =
   ((\<lparr>consumer = True,
       notificationConsumer = Some \<lparr>isRunning = False, messageProcessingTimeout = 30000\<rparr>,
       isShuttingDown = True\<rparr>,
     \<lparr>transporter = Some (Transporter True), isInitialized = True, retryAttempts = 3,
       retryDelay = 1000\<rparr>),
    [Log LogWarn ''Shutdown already in progress, ignoring duplicate shutdown request'' []])
   \<and> filter (\<lambda>e. \<not> is_log e)
       (snd (shutdown None None
          (\<lparr>consumer = True,
             notificationConsumer = Some \<lparr>isRunning = True, messageProcessingTimeout = 30000\<rparr>,
             isShuttingDown = False\<rparr>,
           \<lparr>transporter = Some (Transporter True), isInitialized = True, retryAttempts = 3,
             retryDelay = 1000\<rparr>))) =
     [TransporterClose, ConsumerDisconnect]"
  using shutdown_twice
    [of None None None None
        "(\<lparr>consumer = True,
           notificationConsumer = Some \<lparr>isRunning = True, messageProcessingTimeout = 30000\<rparr>,
           isShuttingDown = False\<rparr>,
         \<lparr>transporter = Some (Transporter True), isInitialized = True, retryAttempts = 3,
           retryDelay = 1000\<rparr>)"
        "\<lparr>isRunning = True, messageProcessingTimeout = 30000\<rparr>" "Transporter True"]
  by (simp add: shutdown_def stop_def close_def disconnectConsumer_def)

end
